theory Spec2Isabelle
  imports Complex_Main
begin

section \<open>Values exchanged with the collaborators\<close>

text \<open>
  A JavaScript number is a finite double, a NaN or an infinity. Every finite double is a
  rational number, comparisons between doubles are exact, and \<open>Math.round\<close> returns the
  exact nearest integer (ties towards plus infinity), so the finite numbers are modelled
  as rationals: the model admits every number the code can receive.
\<close>

datatype jsnum = Num rat | NaN | PosInfinity | NegInfinity

text \<open>
  A parsed structured value (the result of \<open>JSON.parse\<close>). An object is the list of its
  own properties; \<open>undefined\<close> is the absence of a value (\<open>None\<close> below).
\<close>

datatype json =
    JNull
  | JBool bool
  | JNum jsnum
  | JStr string
  | JArr "json list"
  | JObj "(string \<times> json) list"

text \<open>
  Property read \<open>v.k\<close> on a non-null value. The keys read by this program
  (\<open>eloRating\<close>, \<open>name\<close>, \<open>error\<close>, ...) are never \<open>length\<close> or an index, so an
  array, a string, a number and a boolean have none of them. The read on \<open>null\<close> throws
  and is handled where it occurs.
\<close>

fun getProp :: "json \<Rightarrow> string \<Rightarrow> json option" where
  "getProp (JObj kvs) k = map_of kvs k"
| "getProp _ k = None"

text \<open>\<open>typeof v === "string"\<close>, \<open>typeof v === "number" && Number.isFinite(v)\<close>,
  \<open>typeof v === "boolean"\<close>, \<open>Array.isArray(v)\<close>, and
  \<open>typeof v === "object" && v !== null\<close> on a possibly undefined value.\<close>

fun asString :: "json option \<Rightarrow> string option" where
  "asString (Some (JStr s)) = Some s"
| "asString _ = None"

fun asFiniteNumber :: "json option \<Rightarrow> rat option" where
  "asFiniteNumber (Some (JNum (Num q))) = Some q"
| "asFiniteNumber _ = None"

fun asBoolean :: "json option \<Rightarrow> bool option" where
  "asBoolean (Some (JBool b)) = Some b"
| "asBoolean _ = None"

fun asArray :: "json option \<Rightarrow> json list option" where
  "asArray (Some (JArr xs)) = Some xs"
| "asArray _ = None"

fun isObject :: "json \<Rightarrow> bool" where
  "isObject (JObj kvs) = True"
| "isObject (JArr xs) = True"
| "isObject _ = False"

text \<open>
  \<open>String.prototype.trim\<close>. Strings are sequences of 8-bit code units here; the white
  space and line terminators of JavaScript in that range are the seven below.
\<close>

definition whiteSpaceChars :: "char list" where
  "whiteSpaceChars = [CHR 0x09, CHR 0x0A, CHR 0x0B, CHR 0x0C, CHR 0x0D, CHR 0x20, CHR 0xA0]"

definition isWhiteSpace :: "char \<Rightarrow> bool" where
  "isWhiteSpace c = (c \<in> set whiteSpaceChars)"

definition trim :: "string \<Rightarrow> string" where
  "trim s = rev (dropWhile isWhiteSpace (rev (dropWhile isWhiteSpace s)))"

text \<open>\<open>Math.round\<close> on a finite number: the nearest integer, ties upwards.\<close>

definition Math_round :: "rat \<Rightarrow> int" where
  "Math_round q = \<lfloor>q + 1 / 2\<rfloor>"

section \<open>Constants (lib/constants)\<close>

record EloTierDefinition =
  tier_name :: string
  tier_min :: int
  tier_max :: int
  tier_colour :: string

definition ELO_TIERS :: "EloTierDefinition list" where
  "ELO_TIERS =
    [\<lparr>tier_name = ''Wasting My Time'', tier_min = 100, tier_max = 599,
        tier_colour = ''var(--color-error)''\<rparr>,
     \<lparr>tier_name = ''Shows a Pulse'', tier_min = 600, tier_max = 999,
        tier_colour = ''var(--color-warning-strong)''\<rparr>,
     \<lparr>tier_name = ''Adequate'', tier_min = 1000, tier_max = 1399,
        tier_colour = ''var(--color-warning)''\<rparr>,
     \<lparr>tier_name = ''Noteworthy'', tier_min = 1400, tier_max = 1799,
        tier_colour = ''var(--color-success)''\<rparr>,
     \<lparr>tier_name = ''Impressive'', tier_min = 1800, tier_max = 2199,
        tier_colour = ''var(--color-accent)''\<rparr>,
     \<lparr>tier_name = ''Hired Material'', tier_min = 2200, tier_max = 3000,
        tier_colour = ''var(--color-elite)''\<rparr>]"

definition MAX_CV_TEXT_LENGTH :: nat where
  "MAX_CV_TEXT_LENGTH = 100000"

definition MAX_TRANSCRIPT_LENGTH :: nat where
  "MAX_TRANSCRIPT_LENGTH = 200000"

definition HIRED_THRESHOLD :: int where
  "HIRED_THRESHOLD = 2200"

section \<open>Scoring response validation (api/score-interview)\<close>

definition VALID_DIMENSIONS :: "string list" where
  "VALID_DIMENSIONS =
    [''communication'', ''technical'', ''behavioural'', ''confidence'', ''questionsAsked'']"

definition VALID_ANNOTATION_TYPES :: "string list" where
  "VALID_ANNOTATION_TYPES =
    [''brilliant'', ''good'', ''neutral'', ''inaccuracy'', ''mistake'', ''blunder'']"

text \<open>The loop over the tier table, with the two fallbacks after it.\<close>

fun findTier :: "EloTierDefinition list \<Rightarrow> int \<Rightarrow> string option" where
  "findTier [] rating = None"
| "findTier (tier # tiers) rating =
     (if rating \<ge> tier_min tier \<and> rating \<le> tier_max tier then Some (tier_name tier)
      else findTier tiers rating)"

definition deriveTierFromRating :: "int \<Rightarrow> string" where
  "deriveTierFromRating rating =
     (case findTier ELO_TIERS rating of
        Some name \<Rightarrow> name
      | None \<Rightarrow> if rating < 100 then ''Wasting My Time'' else ''Hired Material'')"

record Dimension =
  dim_name :: string
  dim_score :: rat
  dim_feedback :: string

record MomentAnnotation =
  m_type :: string
  m_question :: string
  m_quote :: string
  m_explanation :: string

record ScoringResults =
  eloRating :: int
  tier :: string
  verdict :: string
  bossSummary :: string
  dimensions :: "Dimension list"
  moments :: "MomentAnnotation list"
  isPartial :: bool
  note_text :: "string option"

text \<open>
  What the validator throws: the \<open>TypeError\<close> of a property read on \<open>null\<close>, or an
  \<open>Error\<close> whose message names the reason. The caller catches both alike. The
  message is kept as the reason and the offending value; writing that value into the
  message text (\<open>String(x)\<close>) is not modelled.
\<close>

datatype reason =
    RatingNotNumber "json option"
  | RatingOutOfRange rat
  | SummaryMissingOrEmpty
  | DimensionsNotArray
  | DimensionNotObject
  | InvalidDimensionName "json option"
  | DuplicateDimension string
  | InvalidScore string "json option"
  | EmptyFeedback string
  | MissingDimensions "string list"
  | MomentsNotArray
  | MomentNotObject
  | InvalidAnnotationType "json option"
  | EmptyQuestion string
  | EmptyQuote string
  | EmptyExplanation string

datatype thrown = TypeError | Error reason

text \<open>The two \<open>console.warn\<close> lines of self-healing: returned value, rating, corrected value.\<close>

datatype warning =
    TierSelfHealing string int string
  | VerdictSelfHealing string int string

text \<open>
  The loop over \<open>parsed.dimensions\<close>; \<open>dimensionNames\<close> (a set in insertion order) and
  \<open>validatedDimensions\<close> are the two accumulators.
\<close>

fun validateDimensionEntries ::
  "json list \<Rightarrow> string list \<Rightarrow> Dimension list \<Rightarrow> thrown + (string list \<times> Dimension list)" where
  "validateDimensionEntries [] dimensionNames validatedDimensions =
     Inr (dimensionNames, validatedDimensions)"
| "validateDimensionEntries (d # rest) dimensionNames validatedDimensions =
     (if \<not> isObject d then Inl (Error DimensionNotObject)
      else (case asString (getProp d ''name'') of
        None \<Rightarrow> Inl (Error (InvalidDimensionName (getProp d ''name'')))
      | Some name \<Rightarrow>
         (if name \<notin> set VALID_DIMENSIONS
          then Inl (Error (InvalidDimensionName (getProp d ''name'')))
          else if name \<in> set dimensionNames then Inl (Error (DuplicateDimension name))
          else (case asFiniteNumber (getProp d ''score'') of
            None \<Rightarrow> Inl (Error (InvalidScore name (getProp d ''score'')))
          | Some score \<Rightarrow>
             (case asString (getProp d ''feedback'') of
                None \<Rightarrow> Inl (Error (EmptyFeedback name))
              | Some feedback \<Rightarrow>
                 (if length (trim feedback) = 0 then Inl (Error (EmptyFeedback name))
                  else validateDimensionEntries rest (dimensionNames @ [name])
                         (validatedDimensions @
                           [\<lparr>dim_name = name, dim_score = score,
                             dim_feedback = feedback\<rparr>])))))))"

text \<open>The loop over \<open>parsed.moments\<close>.\<close>

fun validateMomentEntries ::
  "json list \<Rightarrow> MomentAnnotation list \<Rightarrow> thrown + MomentAnnotation list" where
  "validateMomentEntries [] validatedMoments = Inr validatedMoments"
| "validateMomentEntries (moment # rest) validatedMoments =
     (if \<not> isObject moment then Inl (Error MomentNotObject)
      else (case asString (getProp moment ''type'') of
        None \<Rightarrow> Inl (Error (InvalidAnnotationType (getProp moment ''type'')))
      | Some ty \<Rightarrow>
         (if ty \<notin> set VALID_ANNOTATION_TYPES
          then Inl (Error (InvalidAnnotationType (getProp moment ''type'')))
          else (case asString (getProp moment ''question'') of
            None \<Rightarrow> Inl (Error (EmptyQuestion ty))
          | Some question \<Rightarrow>
             (if length (trim question) = 0 then Inl (Error (EmptyQuestion ty))
              else (case asString (getProp moment ''quote'') of
                None \<Rightarrow> Inl (Error (EmptyQuote ty))
              | Some quote \<Rightarrow>
                 (if length (trim quote) = 0 then Inl (Error (EmptyQuote ty))
                  else (case asString (getProp moment ''explanation'') of
                    None \<Rightarrow> Inl (Error (EmptyExplanation ty))
                  | Some explanation \<Rightarrow>
                     (if length (trim explanation) = 0
                      then Inl (Error (EmptyExplanation ty))
                      else validateMomentEntries rest
                             (validatedMoments @
                               [\<lparr>m_type = ty, m_question = question, m_quote = quote,
                                 m_explanation = explanation\<rparr>]))))))))))"

text \<open>
  \<open>validateScoringResponse\<close>: the warnings logged, and the validated result or what is
  thrown. The warnings are logged before the summary is looked at, so they are there
  also when the validation fails later.
\<close>

definition validateScoringResponse :: "json \<Rightarrow> warning list \<times> (thrown + ScoringResults)" where
  "validateScoringResponse parsed =
     (if parsed = JNull then ([], Inl TypeError)
      else (case asFiniteNumber (getProp parsed ''eloRating'') of
        None \<Rightarrow> ([], Inl (Error (RatingNotNumber (getProp parsed ''eloRating''))))
      | Some rating \<Rightarrow>
         (if rating < 100 \<or> rating > 3000 then ([], Inl (Error (RatingOutOfRange rating)))
          else
            let roundedRating = Math_round rating;
                correctTier = deriveTierFromRating roundedRating;
                tierWarning =
                  (case asString (getProp parsed ''tier'') of
                     None \<Rightarrow> []
                   | Some returnedTier \<Rightarrow>
                       if returnedTier \<noteq> correctTier
                       then [TierSelfHealing returnedTier roundedRating correctTier] else []);
                correctVerdict =
                  (if roundedRating \<ge> HIRED_THRESHOLD then ''HIRED'' else ''NOT HIRED'');
                verdictWarning =
                  (case asString (getProp parsed ''verdict'') of
                     None \<Rightarrow> []
                   | Some returnedVerdict \<Rightarrow>
                       if returnedVerdict \<noteq> correctVerdict
                       then [VerdictSelfHealing returnedVerdict roundedRating correctVerdict]
                       else [])
            in (tierWarning @ verdictWarning,
                (case asString (getProp parsed ''bossSummary'') of
                  None \<Rightarrow> Inl (Error SummaryMissingOrEmpty)
                | Some summary \<Rightarrow>
                   (if length (trim summary) = 0 then Inl (Error SummaryMissingOrEmpty)
                    else (case asArray (getProp parsed ''dimensions'') of
                      None \<Rightarrow> Inl (Error DimensionsNotArray)
                    | Some dims \<Rightarrow>
                       (case validateDimensionEntries dims [] [] of
                          Inl e \<Rightarrow> Inl e
                        | Inr (dimensionNames, validatedDimensions) \<Rightarrow>
                           (if length dimensionNames \<noteq> length VALID_DIMENSIONS
                            then Inl (Error (MissingDimensions
                                   (filter (\<lambda>d. d \<notin> set dimensionNames) VALID_DIMENSIONS)))
                            else (case asArray (getProp parsed ''moments'') of
                              None \<Rightarrow> Inl (Error MomentsNotArray)
                            | Some ms \<Rightarrow>
                               (case validateMomentEntries ms [] of
                                  Inl e \<Rightarrow> Inl e
                                | Inr validatedMoments \<Rightarrow>
                                    Inr \<lparr>eloRating = roundedRating,
                                         tier = correctTier,
                                         verdict = correctVerdict,
                                         bossSummary = summary,
                                         dimensions = validatedDimensions,
                                         moments = validatedMoments,
                                         isPartial =
                                           (case asBoolean (getProp parsed ''isPartial'') of
                                              Some b \<Rightarrow> b | None \<Rightarrow> False),
                                         note_text =
                                           (case asString (getProp parsed ''note'') of
                                              None \<Rightarrow> None
                                            | Some n \<Rightarrow>
                                                if length (trim n) > 0 then Some n
                                                else None)\<rparr>)))))))))))"

section \<open>Sliding-window rate limiter (inlined in each route)\<close>

text \<open>
  The module-level store and call counter are the state; \<open>Date.now()\<close> is the argument
  \<open>now\<close>. The copies of \<open>rateLimit\<close> in the score-interview, conversations and upload
  routes are the same text, each with a store of its own.
\<close>

record RateLimitState =
  rateLimitStore :: "string \<rightharpoonup> int list"
  rateLimitCallCount :: nat

record RateLimitResult =
  success :: bool
  remaining :: int

text \<open>The periodic cleanup: every stored list is pruned, a list left empty is deleted.\<close>

definition cleanup :: "(string \<rightharpoonup> int list) \<Rightarrow> int \<Rightarrow> int \<Rightarrow> (string \<rightharpoonup> int list)" where
  "cleanup store now windowMs =
     (\<lambda>k. case store k of
        None \<Rightarrow> None
      | Some v \<Rightarrow>
          (let filtered = filter (\<lambda>t. now - t < windowMs) v
           in if length filtered = 0 then None else Some filtered))"

definition rateLimit ::
  "RateLimitState \<Rightarrow> int \<Rightarrow> string \<Rightarrow> int \<Rightarrow> int \<Rightarrow> string \<Rightarrow> RateLimitResult \<times> RateLimitState" where
  "rateLimit st now identifier maxRequests windowMs namespace =
     (let key = namespace @ '':'' @ identifier;
          timestamps = (case rateLimitStore st key of None \<Rightarrow> [] | Some ts \<Rightarrow> ts);
          valid = filter (\<lambda>t. now - t < windowMs) timestamps;
          callCount = rateLimitCallCount st + 1;
          store = (if callCount mod 100 = 0 then cleanup (rateLimitStore st) now windowMs
                   else rateLimitStore st)
      in if int (length valid) \<ge> maxRequests
         then (\<lparr>success = False, remaining = 0\<rparr>,
               \<lparr>rateLimitStore = store(key \<mapsto> valid), rateLimitCallCount = callCount\<rparr>)
         else (\<lparr>success = True, remaining = maxRequests - int (length (valid @ [now]))\<rparr>,
               \<lparr>rateLimitStore = store(key \<mapsto> valid @ [now]),
                rateLimitCallCount = callCount\<rparr>))"

text \<open>
  A sequence of calls for one identifier under one policy, at the given clock readings:
  the outcomes in order and the final state.
\<close>

fun admissions ::
  "RateLimitState \<Rightarrow> int list \<Rightarrow> string \<Rightarrow> int \<Rightarrow> int \<Rightarrow> string \<Rightarrow> bool list \<times> RateLimitState" where
  "admissions st [] identifier maxRequests windowMs namespace = ([], st)"
| "admissions st (now # nows) identifier maxRequests windowMs namespace =
     (let (r, st') = rateLimit st now identifier maxRequests windowMs namespace;
          (rs, st'') = admissions st' nows identifier maxRequests windowMs namespace
      in (success r # rs, st''))"

text \<open>The timestamps stored for a key (none when the key is absent).\<close>

definition stored :: "RateLimitState \<Rightarrow> string \<Rightarrow> int list" where
  "stored st key = (case rateLimitStore st key of None \<Rightarrow> [] | Some ts \<Rightarrow> ts)"

section \<open>Transcript retrieval with backoff (lib/elevenlabs)\<close>














section \<open>Scoring route handler (api/score-interview)\<close>

text \<open>
  The request as the handler reads it: the \<open>x-forwarded-for\<close> header and the parsed body
  (\<open>None\<close> when \<open>req.json()\<close> rejects). The reply of the scoring collaborator: the call
  rejects, or it resolves to a message of content blocks.
\<close>

record Request =
  forwardedFor :: "string option"
  body :: "json option"

datatype ContentBlock = TextBlock string | OtherBlock

datatype CollaboratorReply = ApiFailure | Message "ContentBlock list"

text \<open>
  What surrounds the handler: the clock, the configured key, the scoring collaborator
  (from the user content sent to its reply) and the library function \<open>JSON.parse\<close>
  (\<open>None\<close> when it throws).
\<close>

record Environment =
  env_now :: int
  env_apiKey :: "string option"
  env_create :: "string \<Rightarrow> CollaboratorReply"
  env_parse :: "string \<Rightarrow> json option"

text \<open>The response: an error body with its status, or the results with status 200.\<close>

datatype Response = ErrorJson nat string | ResultsJson ScoringResults

fun join :: "string \<Rightarrow> string list \<Rightarrow> string" where
  "join sep [] = []"
| "join sep [x] = x"
| "join sep (x # y # ys) = x @ sep @ join sep (y # ys)"

definition newline :: string where
  "newline = [CHR 0x0A]"

text \<open>
  The match of \<open>/\{[\s\S]*\}/\<close>: it starts at the first opening brace and, the star being
  greedy, ends at the last closing brace after it.
\<close>

definition jsonMatch :: "string \<Rightarrow> string option" where
  "jsonMatch text =
     (case dropWhile (\<lambda>c. c \<noteq> CHR ''{'') text of
        [] \<Rightarrow> None
      | brace # rest \<Rightarrow>
          (if CHR ''}'' \<in> set rest
           then Some (brace # rev (dropWhile (\<lambda>c. c \<noteq> CHR ''}'') (rev rest)))
           else None))"

text \<open>Step 6: the text of the text blocks, joined.\<close>

fun blockTexts :: "ContentBlock list \<Rightarrow> string" where
  "blockTexts [] = []"
| "blockTexts (TextBlock t # bs) = t @ blockTexts bs"
| "blockTexts (OtherBlock # bs) = blockTexts bs"

text \<open>Step 7: the raw parse of the trimmed text, then the parse of the match.\<close>

definition parseResponseText :: "(string \<Rightarrow> json option) \<Rightarrow> string \<Rightarrow> json option" where
  "parseResponseText JSON_parse responseText =
     (case JSON_parse (trim responseText) of
        Some parsed \<Rightarrow> Some parsed
      | None \<Rightarrow>
          (case jsonMatch responseText of
             None \<Rightarrow> None
           | Some m \<Rightarrow> JSON_parse m))"

text \<open>Steps 6 to 9 on the message returned by the collaborator.\<close>

definition scoreMessage :: "(string \<Rightarrow> json option) \<Rightarrow> ContentBlock list \<Rightarrow> Response" where
  "scoreMessage JSON_parse content =
     (let responseText = blockTexts content
      in if trim responseText = [] then ErrorJson 500 ''Failed to score the interview''
         else (case parseResponseText JSON_parse responseText of
                 None \<Rightarrow> ErrorJson 500 ''Failed to score the interview''
               | Some parsed \<Rightarrow>
                   (case snd (validateScoringResponse parsed) of
                      Inl e \<Rightarrow> ErrorJson 500 ''Failed to score the interview''
                    | Inr results \<Rightarrow> ResultsJson results)))"

text \<open>Step 4: the user content sent to the collaborator.\<close>

definition userContent :: "json option \<Rightarrow> string \<Rightarrow> string" where
  "userContent cv transcriptText =
     join (newline @ newline)
       ((case asString cv of
           None \<Rightarrow> []
         | Some c \<Rightarrow>
             if c \<noteq> [] \<and> length (trim c) > 0
             then [''=== CANDIDATE CV ==='' @ newline @ c] else [])
        @ [''=== INTERVIEW TRANSCRIPT ==='' @ newline @ transcriptText]
        @ [newline @ ''Please analyse this interview transcript (and CV if provided) and produce the scoring assessment. Return only the JSON object as specified in your instructions.''])"

definition somethingWentWrong :: Response where
  "somethingWentWrong =
     ErrorJson 500 ''Something went wrong while scoring your interview. Please try again.''"

text \<open>
  Steps 2 to 9 of \<open>POST\<close>, reached once the rate limiter has admitted the caller: the
  response and the user contents sent to the scoring collaborator, in order. A falsy
  \<open>transcript\<close> is not a string or is the empty string, which the trim test covers.
\<close>

definition handleAdmitted :: "Environment \<Rightarrow> Request \<Rightarrow> Response \<times> string list" where
  "handleAdmitted env req =
     (case body req of
        None \<Rightarrow> (somethingWentWrong, [])
      | Some b \<Rightarrow>
         (if b = JNull then (somethingWentWrong, [])
          else (case asString (getProp b ''transcript'') of
             None \<Rightarrow> (ErrorJson 400 ''Interview transcript is required'', [])
           | Some transcriptText \<Rightarrow>
              (if length (trim transcriptText) = 0
               then (ErrorJson 400 ''Interview transcript is required'', [])
               else if length transcriptText > MAX_TRANSCRIPT_LENGTH
               then (ErrorJson 400 ''Transcript exceeds maximum length'', [])
               else if getProp b ''cvText'' \<noteq> None \<and> getProp b ''cvText'' \<noteq> Some JNull
                       \<and> asString (getProp b ''cvText'') = None
               then (ErrorJson 400 ''CV text must be a string'', [])
               else if (case asString (getProp b ''cvText'') of
                          None \<Rightarrow> False
                        | Some c \<Rightarrow> length c > MAX_CV_TEXT_LENGTH)
               then (ErrorJson 400 ''CV text exceeds maximum length'', [])
               else if env_apiKey env = None \<or> env_apiKey env = Some []
               then (ErrorJson 500 ''Service configuration error'', [])
               else
                 (let content = userContent (getProp b ''cvText'') transcriptText
                  in (case env_create env content of
                        ApiFailure \<Rightarrow> (somethingWentWrong, [content])
                      | Message blocks \<Rightarrow>
                          (scoreMessage (env_parse env) blocks, [content])))))))"

text \<open>\<open>POST\<close>: step 1, the rate limit, then the rest.\<close>

definition POST ::
  "Environment \<Rightarrow> RateLimitState \<Rightarrow> Request \<Rightarrow> Response \<times> string list \<times> RateLimitState" where
  "POST env st req =
     (let ip = (case forwardedFor req of None \<Rightarrow> ''unknown'' | Some v \<Rightarrow> v);
          (r, st') = rateLimit st (env_now env) ip 30 60000 ''score-interview''
      in if \<not> success r
         then (ErrorJson 429 ''Too many requests. Please wait a moment and try again.'', [], st')
         else (let (response, calls) = handleAdmitted env req in (response, calls, st')))"

text \<open>
  The results as the body of the 200 response (\<open>NextResponse.json(results)\<close>): one
  property per field, \<open>note\<close> left out when it is undefined.
\<close>

definition dimensionJson :: "Dimension \<Rightarrow> json" where
  "dimensionJson d =
     JObj [(''name'', JStr (dim_name d)), (''score'', JNum (Num (dim_score d))),
           (''feedback'', JStr (dim_feedback d))]"

definition momentJson :: "MomentAnnotation \<Rightarrow> json" where
  "momentJson m =
     JObj [(''type'', JStr (m_type m)), (''question'', JStr (m_question m)),
           (''quote'', JStr (m_quote m)), (''explanation'', JStr (m_explanation m))]"

definition resultsJson :: "ScoringResults \<Rightarrow> json" where
  "resultsJson r =
     JObj ([(''eloRating'', JNum (Num (of_int (eloRating r)))),
            (''tier'', JStr (tier r)),
            (''verdict'', JStr (verdict r)),
            (''bossSummary'', JStr (bossSummary r)),
            (''dimensions'', JArr (map dimensionJson (dimensions r))),
            (''moments'', JArr (map momentJson (moments r))),
            (''isPartial'', JBool (isPartial r))]
           @ (case note_text r of None \<Rightarrow> [] | Some n \<Rightarrow> [(''note'', JStr n)]))"

section \<open>Wizard state (hooks/useInterviewWizard)\<close>

datatype WizardStep = Landing | UploadCv | Interview | Analysis | Results

datatype AnalysisPhase = Phase1 | Phase2 | Phase3

record TranscriptEntry =
  role :: string
  message :: string
  timestamp :: "rat option"

record WizardState =
  step :: WizardStep
  cvText :: "string option"
  cvFileName :: "string option"
  conversationId :: "string option"
  transcript :: "TranscriptEntry list option"
  results :: "ScoringResults option"
  analysisPhase :: "AnalysisPhase option"
  error :: "string option"
  loading :: bool

definition INITIAL_STATE :: WizardState where
  "INITIAL_STATE =
     \<lparr>step = Landing, cvText = None, cvFileName = None, conversationId = None,
      transcript = None, results = None, analysisPhase = None, error = None,
      loading = False\<rparr>"

text \<open>\<open>resetForRetry\<close>: \<open>current\<close> is the state read through the ref.\<close>

definition resetForRetry :: "WizardState \<Rightarrow> WizardState" where
  "resetForRetry current =
     INITIAL_STATE\<lparr>step := Interview, cvText := cvText current,
                   cvFileName := cvFileName current\<rparr>"

definition resetFull :: "WizardState \<Rightarrow> WizardState" where
  "resetFull current = INITIAL_STATE"

section \<open>Sample values\<close>

text \<open>
  A payload in the shape of the fixture \<open>buildValidScoringResponse\<close> of the route's test
  suite, with the rating, the tier and the verdict left open, and the result the route
  returns for it.
\<close>

definition sampleDimension :: "string \<Rightarrow> json" where
  "sampleDimension name =
     JObj [(''name'', JStr name), (''score'', JNum (Num 7)),
           (''feedback'', JStr ''I expected more.'')]"

definition sampleMoment :: json where
  "sampleMoment =
     JObj [(''type'', JStr ''good''), (''question'', JStr ''Why should I hire you?''),
           (''quote'', JStr ''I led the migration.''), (''explanation'', JStr ''Adequate.'')]"

definition samplePayload :: "rat \<Rightarrow> string \<Rightarrow> string \<Rightarrow> json" where
  "samplePayload rating returnedTier returnedVerdict =
     JObj [(''eloRating'', JNum (Num rating)),
           (''tier'', JStr returnedTier),
           (''verdict'', JStr returnedVerdict),
           (''bossSummary'', JStr ''We are done here.''),
           (''dimensions'', JArr (map sampleDimension VALID_DIMENSIONS)),
           (''moments'', JArr [sampleMoment]),
           (''isPartial'', JBool False)]"

definition sampleResults :: "int \<Rightarrow> string \<Rightarrow> string \<Rightarrow> ScoringResults" where
  "sampleResults rating correctTier correctVerdict =
     \<lparr>eloRating = rating, tier = correctTier, verdict = correctVerdict,
      bossSummary = ''We are done here.'',
      dimensions =
        map (\<lambda>name. \<lparr>dim_name = name, dim_score = 7, dim_feedback = ''I expected more.''\<rparr>)
          VALID_DIMENSIONS,
      moments =
        [\<lparr>m_type = ''good'', m_question = ''Why should I hire you?'',
          m_quote = ''I led the migration.'', m_explanation = ''Adequate.''\<rparr>],
      isPartial = False, note_text = None\<rparr>"

text \<open>The same payload with the first of the five dimensions left out.\<close>

definition payloadMissingDimension :: json where
  "payloadMissingDimension =
     JObj [(''eloRating'', JNum (Num 1250)),
           (''tier'', JStr ''Adequate''),
           (''verdict'', JStr ''NOT HIRED''),
           (''bossSummary'', JStr ''We are done here.''),
           (''dimensions'', JArr (map sampleDimension (tl VALID_DIMENSIONS))),
           (''moments'', JArr [sampleMoment]),
           (''isPartial'', JBool False)]"

text \<open>The limiter of a fresh module: no key stored, no call counted.\<close>

definition freshLimiter :: RateLimitState where
  "freshLimiter = \<lparr>rateLimitStore = Map.empty, rateLimitCallCount = 0\<rparr>"




text \<open>
  The first balanced object of a text, which the comments of step 7 ("extract the first
  {...} block", "extract JSON from markdown fences or surrounding text") and the spec
  describe, for comparison with \<open>jsonMatch\<close>: from the first opening brace up to the
  closing brace that balances it.
\<close>

fun takeBalanced :: "nat \<Rightarrow> string \<Rightarrow> string option" where
  "takeBalanced depth [] = None"
| "takeBalanced depth (c # cs) =
     (if c = CHR ''{'' then map_option ((#) c) (takeBalanced (Suc depth) cs)
      else if c = CHR ''}'' then
        (if depth \<le> 1 then Some [c] else map_option ((#) c) (takeBalanced (depth - 1) cs))
      else map_option ((#) c) (takeBalanced depth cs))"

definition firstBalancedObject_spec :: "string \<Rightarrow> string option" where
  "firstBalancedObject_spec text = takeBalanced 0 (dropWhile (\<lambda>c. c \<noteq> CHR ''{'') text)"

text \<open>
  Response texts of the scoring collaborator: the sample payload with rating 1250 as
  \<open>JSON.stringify\<close> writes it, the same in a markdown fence (as in the test "should strip
  markdown fences"), and the same followed by a remark that has a pair of braces in it.
\<close>

definition sampleDimensionText :: "string \<Rightarrow> string" where
  \<open>sampleDimensionText name =
     ''{"name":"'' @ name @ ''","score":7,"feedback":"I expected more."}''\<close>

definition samplePayloadText :: string where
  \<open>samplePayloadText =
     ''{"eloRating":1250,"tier":"Adequate","verdict":"NOT HIRED",''
     @ ''"bossSummary":"We are done here.","dimensions":[''
     @ join '','' (map sampleDimensionText VALID_DIMENSIONS)
     @ ''],"moments":[{"type":"good","question":"Why should I hire you?",''
     @ ''"quote":"I led the migration.","explanation":"Adequate."}],"isPartial":false}''\<close>

definition fencedPayloadText :: string where
  "fencedPayloadText = ''```json'' @ newline @ samplePayloadText @ newline @ ''```''"

definition remarkedPayloadText :: string where
  "remarkedPayloadText = samplePayloadText @ newline @ ''Scores use the {1-10} scale.''"

text \<open>
  \<open>JSON.parse\<close> on the texts used below: \<open>{}\<close> is the empty object and the sample
  payload text is the sample payload; the fenced text, the remarked text and the spans
  the brace pattern matches in them, other than the payload text itself, are not JSON.
\<close>

definition parseSample :: "string \<Rightarrow> json option" where
  "parseSample text =
     (if text = ''{}'' then Some (JObj [])
      else if text = samplePayloadText
      then Some (samplePayload 1250 ''Adequate'' ''NOT HIRED'')
      else None)"

text \<open>
  Requests as the test suite of the route builds them (\<open>"x".repeat(n)\<close> for the long
  texts), and an environment with a configured key whose collaborator answers \<open>{}\<close>.
\<close>

definition longText :: "nat \<Rightarrow> string" where
  "longText n = replicate n (CHR ''x'')"

definition sampleRequest :: "string \<Rightarrow> string \<Rightarrow> Request" where
  "sampleRequest transcriptText cv =
     \<lparr>forwardedFor = Some ''10.0.0.1'',
      body = Some (JObj [(''transcript'', JStr transcriptText), (''cvText'', JStr cv)])\<rparr>"

definition sampleEnvironment :: Environment where
  "sampleEnvironment =
     \<lparr>env_now = 0, env_apiKey = Some ''test-key'',
      env_create = (\<lambda>content. Message [TextBlock ''{}'']),
      env_parse = parseSample\<rparr>"

section \<open>Properties of the validator\<close>

subsection \<open>Auxiliary facts\<close>

lemma trim_empty_iff: "trim s = [] \<longleftrightarrow> (\<forall>c \<in> set s. isWhiteSpace c)"
proof
  assume "trim s = []"
  then have a: "\<forall>x \<in> set (dropWhile isWhiteSpace s). isWhiteSpace x"
    unfolding trim_def by (simp add: dropWhile_eq_Nil_conv)
  have "dropWhile isWhiteSpace s = []"
  proof (rule ccontr)
    assume ne: "dropWhile isWhiteSpace s \<noteq> []"
    then have "\<not> isWhiteSpace (hd (dropWhile isWhiteSpace s))" by (rule hd_dropWhile)
    moreover have "hd (dropWhile isWhiteSpace s) \<in> set (dropWhile isWhiteSpace s)"
      using ne by simp
    ultimately show False using a by blast
  qed
  then show "\<forall>c \<in> set s. isWhiteSpace c" by (simp add: dropWhile_eq_Nil_conv)
next
  assume "\<forall>c \<in> set s. isWhiteSpace c"
  then have d: "dropWhile isWhiteSpace s = []" by (simp add: dropWhile_eq_Nil_conv)
  show "trim s = []" unfolding trim_def d by simp
qed

lemma x_not_white: "\<not> isWhiteSpace (CHR ''x'')"
  by (simp add: isWhiteSpace_def whiteSpaceChars_def)

lemma Math_round_range:
  "100 \<le> q \<Longrightarrow> q \<le> 3000 \<Longrightarrow> 100 \<le> Math_round q \<and> Math_round q \<le> 3000"
  unfolding Math_round_def by (simp add: le_floor_iff floor_le_iff)

lemma Math_round_of_int: "Math_round (of_int n) = n"
  unfolding Math_round_def by linarith

lemma one_band:
  "100 \<le> r \<Longrightarrow> r \<le> 3000 \<Longrightarrow>
   map tier_name (filter (\<lambda>t. tier_min t \<le> r \<and> r \<le> tier_max t) ELO_TIERS)
     = [deriveTierFromRating r]"
  unfolding deriveTierFromRating_def ELO_TIERS_def by simp

text \<open>When the validator returns, and what it returns then.\<close>

lemma validate_intro:
  assumes "parsed \<noteq> JNull"
    and "asFiniteNumber (getProp parsed ''eloRating'') = Some q"
    and "100 \<le> q" "q \<le> 3000"
    and "asString (getProp parsed ''bossSummary'') = Some summary"
    and "trim summary \<noteq> []"
    and "asArray (getProp parsed ''dimensions'') = Some ds"
    and "validateDimensionEntries ds [] [] = Inr (names, vds)"
    and "length names = length VALID_DIMENSIONS"
    and "asArray (getProp parsed ''moments'') = Some ms"
    and "validateMomentEntries ms [] = Inr vms"
  shows "snd (validateScoringResponse parsed) =
           Inr \<lparr>eloRating = Math_round q,
                tier = deriveTierFromRating (Math_round q),
                verdict = (if Math_round q \<ge> HIRED_THRESHOLD then ''HIRED'' else ''NOT HIRED''),
                bossSummary = summary,
                dimensions = vds,
                moments = vms,
                isPartial = (case asBoolean (getProp parsed ''isPartial'') of
                               Some b \<Rightarrow> b | None \<Rightarrow> False),
                note_text = (case asString (getProp parsed ''note'') of
                               None \<Rightarrow> None
                             | Some n \<Rightarrow> if length (trim n) > 0 then Some n else None)\<rparr>"
  unfolding validateScoringResponse_def using assms
  by (simp add: Let_def)

lemma validate_elim:
  assumes ok: "snd (validateScoringResponse parsed) = Inr r"
  obtains q summary ds names vds ms vms where
    "parsed \<noteq> JNull"
    and "asFiniteNumber (getProp parsed ''eloRating'') = Some q"
    and "100 \<le> q" "q \<le> 3000"
    and "asString (getProp parsed ''bossSummary'') = Some summary"
    and "trim summary \<noteq> []"
    and "asArray (getProp parsed ''dimensions'') = Some ds"
    and "validateDimensionEntries ds [] [] = Inr (names, vds)"
    and "length names = length VALID_DIMENSIONS"
    and "asArray (getProp parsed ''moments'') = Some ms"
    and "validateMomentEntries ms [] = Inr vms"
proof -
  have n: "parsed \<noteq> JNull"
    using ok unfolding validateScoringResponse_def by (cases "parsed = JNull") simp_all
  obtain q where q: "asFiniteNumber (getProp parsed ''eloRating'') = Some q"
    using ok n unfolding validateScoringResponse_def
    by (cases "asFiniteNumber (getProp parsed ''eloRating'')") simp_all
  have range: "\<not> (q < 100 \<or> q > 3000)"
    using ok n q unfolding validateScoringResponse_def
    by (cases "q < 100 \<or> q > 3000") simp_all
  obtain summary where s: "asString (getProp parsed ''bossSummary'') = Some summary"
    using ok n q range unfolding validateScoringResponse_def
    by (cases "asString (getProp parsed ''bossSummary'')") (simp_all add: Let_def)
  have s2: "trim summary \<noteq> []"
    using ok n q range s unfolding validateScoringResponse_def
    by (cases "trim summary = []") (simp_all add: Let_def)
  obtain ds where ds: "asArray (getProp parsed ''dimensions'') = Some ds"
    using ok n q range s s2 unfolding validateScoringResponse_def
    by (cases "asArray (getProp parsed ''dimensions'')") (simp_all add: Let_def)
  obtain names vds where v: "validateDimensionEntries ds [] [] = Inr (names, vds)"
    using ok n q range s s2 ds unfolding validateScoringResponse_def
    by (cases "validateDimensionEntries ds [] []") (auto simp: Let_def)
  have len: "length names = length VALID_DIMENSIONS"
    using ok n q range s s2 ds v unfolding validateScoringResponse_def
    by (cases "length names = length VALID_DIMENSIONS") (simp_all add: Let_def)
  obtain ms where ms: "asArray (getProp parsed ''moments'') = Some ms"
    using ok n q range s s2 ds v len unfolding validateScoringResponse_def
    by (cases "asArray (getProp parsed ''moments'')") (simp_all add: Let_def)
  obtain vms where vms: "validateMomentEntries ms [] = Inr vms"
    using ok n q range s s2 ds v len ms unfolding validateScoringResponse_def
    by (cases "validateMomentEntries ms []") (simp_all add: Let_def)
  show thesis
    using that[OF n q _ _ s s2 ds v len ms vms] range by simp
qed

text \<open>
  The invariant of the loop over the dimensions: what a run that returns has checked of
  every entry, and that validating the entries it built, from the same accumulators,
  returns the same.
\<close>

lemma dims_loop:
  "validateDimensionEntries ds ns acc = Inr (ns', acc') \<Longrightarrow>
   (\<forall>d \<in> set ds. isObject d
       \<and> (\<exists>n. asString (getProp d ''name'') = Some n \<and> n \<in> set VALID_DIMENSIONS \<and> n \<notin> set ns)
       \<and> asFiniteNumber (getProp d ''score'') \<noteq> None
       \<and> (\<exists>f. asString (getProp d ''feedback'') = Some f \<and> trim f \<noteq> []))
   \<and> distinct (map (\<lambda>d. asString (getProp d ''name'')) ds)
   \<and> ns' = ns @ map dim_name (drop (length acc) acc')
   \<and> take (length acc) acc' = acc
   \<and> map Some (map dim_name (drop (length acc) acc')) = map (\<lambda>d. asString (getProp d ''name'')) ds
   \<and> validateDimensionEntries (map dimensionJson (drop (length acc) acc')) ns acc = Inr (ns', acc')"
proof (induction ds arbitrary: ns acc)
  case Nil
  then show ?case by simp
next
  case (Cons d rest)
  from Cons.prems have obj: "isObject d"
    by (cases "isObject d") simp_all
  from Cons.prems obj obtain n where n: "asString (getProp d ''name'') = Some n"
    by (cases "asString (getProp d ''name'')") simp_all
  from Cons.prems obj n have nv: "n \<in> set VALID_DIMENSIONS"
    by (cases "n \<in> set VALID_DIMENSIONS") simp_all
  from Cons.prems obj n nv have nn: "n \<notin> set ns"
    by (cases "n \<in> set ns") simp_all
  from Cons.prems obj n nv nn obtain sc where sc: "asFiniteNumber (getProp d ''score'') = Some sc"
    by (cases "asFiniteNumber (getProp d ''score'')") simp_all
  from Cons.prems obj n nv nn sc obtain f where f: "asString (getProp d ''feedback'') = Some f"
    by (cases "asString (getProp d ''feedback'')") simp_all
  from Cons.prems obj n nv nn sc f have ft: "trim f \<noteq> []"
    by (cases "trim f = []") simp_all
  let ?rec = "\<lparr>dim_name = n, dim_score = sc, dim_feedback = f\<rparr>"
  from Cons.prems obj n nv nn sc f ft
  have rec: "validateDimensionEntries rest (ns @ [n]) (acc @ [?rec]) = Inr (ns', acc')"
    by simp
  note ih = Cons.IH[OF rec]
  from ih have tk: "take (Suc (length acc)) acc' = acc @ [?rec]" by simp
  then have len: "length acc < length acc'"
    by (metis length_append_singleton length_take lessI min_less_iff_conj)
  from tk have tk0: "take (length acc) acc' = acc"
    by (metis append_eq_conv_conj length_append_singleton take_Suc_conv_app_nth len butlast_snoc butlast_take diff_Suc_1 less_imp_le_nat Suc_leI)
  from tk len have nth: "acc' ! length acc = ?rec"
    by (metis nth_append_length nth_take lessI)
  have dr: "drop (length acc) acc' = ?rec # drop (Suc (length acc)) acc'"
    using len nth by (metis Cons_nth_drop_Suc)
  have notin: "\<forall>d' \<in> set rest. asString (getProp d' ''name'') \<noteq> Some n"
    using ih by auto
  show ?case
    using ih obj n nv nn sc f ft tk0 dr notin
    by (auto simp: dimensionJson_def)
qed

text \<open>The same for the loop over the moments.\<close>

lemma moments_loop:
  "validateMomentEntries ms acc = Inr acc' \<Longrightarrow>
   take (length acc) acc' = acc
   \<and> validateMomentEntries (map momentJson (drop (length acc) acc')) acc = Inr acc'"
proof (induction ms arbitrary: acc)
  case Nil
  then show ?case by simp
next
  case (Cons m rest)
  from Cons.prems have obj: "isObject m"
    by (cases "isObject m") simp_all
  from Cons.prems obj obtain ty where ty: "asString (getProp m ''type'') = Some ty"
    by (cases "asString (getProp m ''type'')") simp_all
  from Cons.prems obj ty have tv: "ty \<in> set VALID_ANNOTATION_TYPES"
    by (cases "ty \<in> set VALID_ANNOTATION_TYPES") simp_all
  from Cons.prems obj ty tv obtain qn where qn: "asString (getProp m ''question'') = Some qn"
    by (cases "asString (getProp m ''question'')") simp_all
  from Cons.prems obj ty tv qn have qt: "trim qn \<noteq> []"
    by (cases "trim qn = []") simp_all
  from Cons.prems obj ty tv qn qt obtain qu where qu: "asString (getProp m ''quote'') = Some qu"
    by (cases "asString (getProp m ''quote'')") simp_all
  from Cons.prems obj ty tv qn qt qu have qut: "trim qu \<noteq> []"
    by (cases "trim qu = []") simp_all
  from Cons.prems obj ty tv qn qt qu qut
  obtain ex where ex: "asString (getProp m ''explanation'') = Some ex"
    by (cases "asString (getProp m ''explanation'')") simp_all
  from Cons.prems obj ty tv qn qt qu qut ex have ext: "trim ex \<noteq> []"
    by (cases "trim ex = []") simp_all
  let ?rec = "\<lparr>m_type = ty, m_question = qn, m_quote = qu, m_explanation = ex\<rparr>"
  from Cons.prems obj ty tv qn qt qu qut ex ext
  have rec: "validateMomentEntries rest (acc @ [?rec]) = Inr acc'"
    by simp
  note ih = Cons.IH[OF rec]
  from ih have tk: "take (Suc (length acc)) acc' = acc @ [?rec]" by simp
  then have len: "length acc < length acc'"
    by (metis length_append_singleton length_take lessI min_less_iff_conj)
  from tk have tk0: "take (length acc) acc' = acc"
    by (metis append_eq_conv_conj length_append_singleton take_Suc_conv_app_nth len butlast_snoc butlast_take diff_Suc_1 less_imp_le_nat Suc_leI)
  from tk len have nth: "acc' ! length acc = ?rec"
    by (metis nth_append_length nth_take lessI)
  have dr: "drop (length acc) acc' = ?rec # drop (Suc (length acc)) acc'"
    using len nth by (metis Cons_nth_drop_Suc)
  show ?case
    using ih tv qt qut ext tk0 dr
    by (auto simp: momentJson_def)
qed

text \<open>No warning is logged when the returned tier and verdict are the derived ones.\<close>

lemma validate_warnings:
  assumes "parsed \<noteq> JNull"
    and "asFiniteNumber (getProp parsed ''eloRating'') = Some q"
    and "100 \<le> q" "q \<le> 3000"
    and "asString (getProp parsed ''tier'') = Some (deriveTierFromRating (Math_round q))"
    and "asString (getProp parsed ''verdict'') =
           Some (if Math_round q \<ge> HIRED_THRESHOLD then ''HIRED'' else ''NOT HIRED'')"
  shows "fst (validateScoringResponse parsed) = []"
  unfolding validateScoringResponse_def using assms
  by (simp add: Let_def)

text \<open>
  The result of an accepted payload, field by field, and the properties of the payload
  it depends on: the tier and the verdict of the payload are not among them.
\<close>

lemma validate_result:
  assumes ok: "snd (validateScoringResponse parsed) = Inr r"
  obtains q where
    "asFiniteNumber (getProp parsed ''eloRating'') = Some q"
    and "100 \<le> q" "q \<le> 3000"
    and "eloRating r = Math_round q"
    and "tier r = deriveTierFromRating (Math_round q)"
    and "verdict r = (if Math_round q \<ge> HIRED_THRESHOLD then ''HIRED'' else ''NOT HIRED'')"
    and "trim (bossSummary r) \<noteq> []"
    and "isPartial r = (case asBoolean (getProp parsed ''isPartial'') of
                         Some b \<Rightarrow> b | None \<Rightarrow> False)"
    and "note_text r = (case asString (getProp parsed ''note'') of
                          None \<Rightarrow> None
                        | Some n \<Rightarrow> if length (trim n) > 0 then Some n else None)"
proof -
  from ok obtain q summary ds names vds ms vms where
    f: "parsed \<noteq> JNull"
       "asFiniteNumber (getProp parsed ''eloRating'') = Some q"
       "100 \<le> q" "q \<le> 3000"
       "asString (getProp parsed ''bossSummary'') = Some summary"
       "trim summary \<noteq> []"
       "asArray (getProp parsed ''dimensions'') = Some ds"
       "validateDimensionEntries ds [] [] = Inr (names, vds)"
       "length names = length VALID_DIMENSIONS"
       "asArray (getProp parsed ''moments'') = Some ms"
       "validateMomentEntries ms [] = Inr vms"
    by (rule validate_elim)
  let ?R = "\<lparr>eloRating = Math_round q,
             tier = deriveTierFromRating (Math_round q),
             verdict = (if Math_round q \<ge> HIRED_THRESHOLD then ''HIRED'' else ''NOT HIRED''),
             bossSummary = summary,
             dimensions = vds,
             moments = vms,
             isPartial = (case asBoolean (getProp parsed ''isPartial'') of
                            Some b \<Rightarrow> b | None \<Rightarrow> False),
             note_text = (case asString (getProp parsed ''note'') of
                            None \<Rightarrow> None
                          | Some n \<Rightarrow> if length (trim n) > 0 then Some n else None)\<rparr>"
  have "snd (validateScoringResponse parsed) = Inr ?R"
    by (rule validate_intro[OF f])
  with ok have "Inr r = (Inr ?R :: thrown + ScoringResults)" by simp
  then have r: "r = ?R" by (rule Inr_inject)
  show thesis
  proof (rule that[OF f(2) f(3) f(4)])
    show "eloRating r = Math_round q" by (subst r) simp
    show "tier r = deriveTierFromRating (Math_round q)" by (subst r) simp
    show "verdict r = (if Math_round q \<ge> HIRED_THRESHOLD then ''HIRED'' else ''NOT HIRED'')"
      by (subst r) simp
    show "trim (bossSummary r) \<noteq> []" using f(6) by (subst r) simp
    show "isPartial r = (case asBoolean (getProp parsed ''isPartial'') of
                           Some b \<Rightarrow> b | None \<Rightarrow> False)"
      by (subst r) simp
    show "note_text r = (case asString (getProp parsed ''note'') of
                           None \<Rightarrow> None
                         | Some n \<Rightarrow> if length (trim n) > 0 then Some n else None)"
      by (subst r) simp
  qed
qed

lemma validate_agree:
  assumes ok: "snd (validateScoringResponse parsed) = Inr r"
    and ne: "parsed' \<noteq> JNull"
    and g: "getProp parsed' ''eloRating'' = getProp parsed ''eloRating''"
      "getProp parsed' ''bossSummary'' = getProp parsed ''bossSummary''"
      "getProp parsed' ''dimensions'' = getProp parsed ''dimensions''"
      "getProp parsed' ''moments'' = getProp parsed ''moments''"
      "getProp parsed' ''isPartial'' = getProp parsed ''isPartial''"
      "getProp parsed' ''note'' = getProp parsed ''note''"
  shows "snd (validateScoringResponse parsed') = Inr r"
proof -
  from ok obtain q summary ds names vds ms vms where
    f: "parsed \<noteq> JNull"
       "asFiniteNumber (getProp parsed ''eloRating'') = Some q"
       "100 \<le> q" "q \<le> 3000"
       "asString (getProp parsed ''bossSummary'') = Some summary"
       "trim summary \<noteq> []"
       "asArray (getProp parsed ''dimensions'') = Some ds"
       "validateDimensionEntries ds [] [] = Inr (names, vds)"
       "length names = length VALID_DIMENSIONS"
       "asArray (getProp parsed ''moments'') = Some ms"
       "validateMomentEntries ms [] = Inr vms"
    by (rule validate_elim)
  have "snd (validateScoringResponse parsed') = snd (validateScoringResponse parsed)"
    using validate_intro[of parsed' q summary ds names vds ms vms] ne f(2-11)
      validate_intro[OF f]
    unfolding g by simp
  then show ?thesis using ok by simp
qed

lemma sample_payload_accepted:
  "validateScoringResponse (samplePayload (4399 / 2) ''Impressive'' ''MAYBE'') =
     ([TierSelfHealing ''Impressive'' 2200 ''Hired Material'',
       VerdictSelfHealing ''MAYBE'' 2200 ''HIRED''],
      Inr (sampleResults 2200 ''Hired Material'' ''HIRED''))"
  by code_simp

lemma samplePayload_agree:
  "getProp (samplePayload a b c) k = getProp (samplePayload a b c') k" if "k \<noteq> ''verdict''"
  using that unfolding samplePayload_def getProp.simps map_of.simps by (simp del: list.inject)

subsection \<open>Verdict\<close>

text \<open>
  C1. For every payload the validator accepts, the verdict of the result is computed from
  the rounded rating alone: it is \<open>HIRED\<close> exactly when the rounded rating is at least
  2200 and \<open>NOT HIRED\<close> exactly when it is below. The rating of the result is the rounded
  rating of the payload; and any payload that differs from the accepted one at most in
  its \<open>verdict\<close> property (absent, of another type, or any string at all) gives the
  same result.
\<close>

theorem verdict_recomputed_from_rating:
  assumes "snd (validateScoringResponse parsed) = Inr r"
  shows "(verdict r = ''HIRED'' \<longleftrightarrow> eloRating r \<ge> 2200)
       \<and> (verdict r = ''NOT HIRED'' \<longleftrightarrow> eloRating r < 2200)
       \<and> (\<exists>q. asFiniteNumber (getProp parsed ''eloRating'') = Some q \<and> eloRating r = Math_round q)
       \<and> (\<forall>parsed'. parsed' \<noteq> JNull
             \<and> (\<forall>k. k \<noteq> ''verdict'' \<longrightarrow> getProp parsed' k = getProp parsed k)
             \<longrightarrow> snd (validateScoringResponse parsed') = Inr r)"
proof -
  from assms obtain q where
    q: "asFiniteNumber (getProp parsed ''eloRating'') = Some q"
    and e: "eloRating r = Math_round q"
    and v: "verdict r = (if Math_round q \<ge> HIRED_THRESHOLD then ''HIRED'' else ''NOT HIRED'')"
    by (rule validate_result)
  show ?thesis
  proof (intro conjI allI impI)
    show "verdict r = ''HIRED'' \<longleftrightarrow> eloRating r \<ge> 2200"
      unfolding v e HIRED_THRESHOLD_def by simp
    show "verdict r = ''NOT HIRED'' \<longleftrightarrow> eloRating r < 2200"
      unfolding v e HIRED_THRESHOLD_def by simp
    show "\<exists>q. asFiniteNumber (getProp parsed ''eloRating'') = Some q \<and> eloRating r = Math_round q"
      using q e by blast
  next
    fix parsed'
    assume a: "parsed' \<noteq> JNull
      \<and> (\<forall>k. k \<noteq> ''verdict'' \<longrightarrow> getProp parsed' k = getProp parsed k)"
    show "snd (validateScoringResponse parsed') = Inr r"
      by (rule validate_agree[OF assms]) (use a in simp_all)
  qed
qed

theorem verdict_recomputed_from_rating_witness:
  "snd (validateScoringResponse (samplePayload (4399 / 2) ''Impressive'' ''MAYBE''))
     = Inr (sampleResults 2200 ''Hired Material'' ''HIRED'')
   \<and> verdict (sampleResults 2200 ''Hired Material'' ''HIRED'') = ''HIRED''
   \<and> snd (validateScoringResponse (samplePayload (4399 / 2) ''Impressive'' ''NOT HIRED''))
     = Inr (sampleResults 2200 ''Hired Material'' ''HIRED'')"
proof -
  have h: "snd (validateScoringResponse (samplePayload (4399 / 2) ''Impressive'' ''MAYBE''))
             = Inr (sampleResults 2200 ''Hired Material'' ''HIRED'')"
    by (simp add: sample_payload_accepted)
  have e: "eloRating (sampleResults 2200 ''Hired Material'' ''HIRED'') \<ge> 2200"
    by (simp add: sampleResults_def)
  have n: "samplePayload (4399 / 2) ''Impressive'' ''NOT HIRED'' \<noteq> JNull"
    by (simp add: samplePayload_def)
  have p: "samplePayload (4399 / 2) ''Impressive'' ''NOT HIRED'' \<noteq> JNull
      \<and> (\<forall>k. k \<noteq> ''verdict'' \<longrightarrow>
            getProp (samplePayload (4399 / 2) ''Impressive'' ''NOT HIRED'') k
              = getProp (samplePayload (4399 / 2) ''Impressive'' ''MAYBE'') k)"
    using n samplePayload_agree by blast
  note t = verdict_recomputed_from_rating[OF h]
  have a: "verdict (sampleResults 2200 ''Hired Material'' ''HIRED'') = ''HIRED''"
    using t[THEN conjunct1] e by (rule iffD2)
  have b: "snd (validateScoringResponse (samplePayload (4399 / 2) ''Impressive'' ''NOT HIRED''))
     = Inr (sampleResults 2200 ''Hired Material'' ''HIRED'')"
    by (rule t[THEN conjunct2, THEN conjunct2, THEN conjunct2, THEN spec, THEN mp, OF p])
  from h a b show ?thesis by (intro conjI)
qed

lemma samplePayload_agree_tier:
  "getProp (samplePayload a b c) k = getProp (samplePayload a b' c) k" if "k \<noteq> ''tier''"
  using that unfolding samplePayload_def getProp.simps map_of.simps by (simp del: list.inject)

lemma sample_payload_1450:
  "validateScoringResponse (samplePayload 1450 ''Impressive'' ''NOT HIRED'') =
     ([TierSelfHealing ''Impressive'' 1450 ''Noteworthy''],
      Inr (sampleResults 1450 ''Noteworthy'' ''NOT HIRED''))"
  by code_simp

subsection \<open>Tier\<close>

text \<open>
  C2. Every integer rating from 100 to 3000 lies in exactly one of the six bands of the
  tier table (filtering the table by the rating leaves one band), the six names are
  distinct, and the derivation returns the name of that band. For every payload the
  validator accepts, the rating of the result is the rounded rating of the payload and
  lies in that range, the tier of the result is the one derived from it, and any payload
  that differs from the accepted one at most in its \<open>tier\<close> property gives the same
  result.
\<close>

theorem tier_partition_and_recomputed:
  "(100 \<le> r \<and> r \<le> 3000 \<longrightarrow>
      length ELO_TIERS = 6 \<and> distinct (map tier_name ELO_TIERS)
      \<and> map tier_name (filter (\<lambda>t. tier_min t \<le> r \<and> r \<le> tier_max t) ELO_TIERS)
           = [deriveTierFromRating r])
   \<and> (snd (validateScoringResponse parsed) = Inr res \<longrightarrow>
        100 \<le> eloRating res \<and> eloRating res \<le> 3000
        \<and> (\<exists>q. asFiniteNumber (getProp parsed ''eloRating'') = Some q
                \<and> eloRating res = Math_round q)
        \<and> tier res = deriveTierFromRating (eloRating res)
        \<and> (\<forall>parsed'. parsed' \<noteq> JNull
              \<and> (\<forall>k. k \<noteq> ''tier'' \<longrightarrow> getProp parsed' k = getProp parsed k)
              \<longrightarrow> snd (validateScoringResponse parsed') = Inr res))"
proof (intro conjI impI)
  assume "100 \<le> r \<and> r \<le> 3000"
  then show "map tier_name (filter (\<lambda>t. tier_min t \<le> r \<and> r \<le> tier_max t) ELO_TIERS)
           = [deriveTierFromRating r]"
    by (simp add: one_band)
next
  show "length ELO_TIERS = 6" by (simp add: ELO_TIERS_def)
  show "distinct (map tier_name ELO_TIERS)" by (simp add: ELO_TIERS_def)
next
  assume ok: "snd (validateScoringResponse parsed) = Inr res"
  from ok obtain q where
    q: "asFiniteNumber (getProp parsed ''eloRating'') = Some q"
    and b: "100 \<le> q" "q \<le> 3000"
    and e: "eloRating res = Math_round q"
    and t: "tier res = deriveTierFromRating (Math_round q)"
    by (rule validate_result)
  show "100 \<le> eloRating res" "eloRating res \<le> 3000"
    using Math_round_range[OF b] e by simp_all
  show "\<exists>q. asFiniteNumber (getProp parsed ''eloRating'') = Some q \<and> eloRating res = Math_round q"
    using q e by blast
  show "tier res = deriveTierFromRating (eloRating res)"
    using t e by simp
  show "\<forall>parsed'. parsed' \<noteq> JNull
              \<and> (\<forall>k. k \<noteq> ''tier'' \<longrightarrow> getProp parsed' k = getProp parsed k)
              \<longrightarrow> snd (validateScoringResponse parsed') = Inr res"
  proof (intro allI impI)
    fix parsed'
    assume a: "parsed' \<noteq> JNull \<and> (\<forall>k. k \<noteq> ''tier'' \<longrightarrow> getProp parsed' k = getProp parsed k)"
    show "snd (validateScoringResponse parsed') = Inr res"
      by (rule validate_agree[OF ok]) (use a in simp_all)
  qed
qed

theorem tier_partition_and_recomputed_witness:
  "map tier_name (filter (\<lambda>t. tier_min t \<le> 1450 \<and> 1450 \<le> tier_max t) ELO_TIERS)
     = [''Noteworthy'']
   \<and> snd (validateScoringResponse (samplePayload 1450 ''Impressive'' ''NOT HIRED''))
       = Inr (sampleResults 1450 ''Noteworthy'' ''NOT HIRED'')
   \<and> tier (sampleResults 1450 ''Noteworthy'' ''NOT HIRED'') = deriveTierFromRating 1450
   \<and> snd (validateScoringResponse (samplePayload 1450 ''Adequate'' ''NOT HIRED''))
       = Inr (sampleResults 1450 ''Noteworthy'' ''NOT HIRED'')"
proof -
  let ?p = "samplePayload 1450 ''Impressive'' ''NOT HIRED''"
  let ?p' = "samplePayload 1450 ''Adequate'' ''NOT HIRED''"
  let ?r = "sampleResults 1450 ''Noteworthy'' ''NOT HIRED''"
  note t = tier_partition_and_recomputed[of 1450 ?p ?r]
  have h: "snd (validateScoringResponse ?p) = Inr ?r"
    by (simp add: sample_payload_1450)
  have d: "deriveTierFromRating 1450 = ''Noteworthy''"
    by code_simp
  have e: "eloRating ?r = 1450"
    by (simp add: sampleResults_def)
  have r: "(100::int) \<le> 1450 \<and> (1450::int) \<le> 3000" by simp
  have n: "?p' \<noteq> JNull" by (simp add: samplePayload_def)
  have p: "?p' \<noteq> JNull \<and> (\<forall>k. k \<noteq> ''tier'' \<longrightarrow> getProp ?p' k = getProp ?p k)"
    using n samplePayload_agree_tier by blast
  have a: "map tier_name (filter (\<lambda>t. tier_min t \<le> 1450 \<and> 1450 \<le> tier_max t) ELO_TIERS)
     = [''Noteworthy'']"
    using t[THEN conjunct1, THEN mp, OF r, THEN conjunct2, THEN conjunct2] d by simp
  note s = t[THEN conjunct2, THEN mp, OF h]
  have b: "tier ?r = deriveTierFromRating 1450"
    using s[THEN conjunct2, THEN conjunct2, THEN conjunct2, THEN conjunct1] e by simp
  have c: "snd (validateScoringResponse ?p') = Inr ?r"
    by (rule s[THEN conjunct2, THEN conjunct2, THEN conjunct2, THEN conjunct2, THEN spec, THEN mp, OF p])
  from a h b c show ?thesis by (intro conjI)
qed

subsection \<open>Idempotence\<close>

lemma getProp_resultsJson:
  "getProp (resultsJson r) ''eloRating'' = Some (JNum (Num (of_int (eloRating r))))"
  "getProp (resultsJson r) ''tier'' = Some (JStr (tier r))"
  "getProp (resultsJson r) ''verdict'' = Some (JStr (verdict r))"
  "getProp (resultsJson r) ''bossSummary'' = Some (JStr (bossSummary r))"
  "getProp (resultsJson r) ''dimensions'' = Some (JArr (map dimensionJson (dimensions r)))"
  "getProp (resultsJson r) ''moments'' = Some (JArr (map momentJson (moments r)))"
  "getProp (resultsJson r) ''isPartial'' = Some (JBool (isPartial r))"
  "getProp (resultsJson r) ''note'' = map_option JStr (note_text r)"
  unfolding resultsJson_def by (simp_all split: option.split)

lemma validate_canonical:
  assumes e: "100 \<le> eloRating r" "eloRating r \<le> 3000"
    and t: "tier r = deriveTierFromRating (eloRating r)"
    and v: "verdict r = (if eloRating r \<ge> HIRED_THRESHOLD then ''HIRED'' else ''NOT HIRED'')"
    and s: "trim (bossSummary r) \<noteq> []"
    and d: "validateDimensionEntries (map dimensionJson (dimensions r)) [] []
              = Inr (names, dimensions r)"
    and l: "length names = length VALID_DIMENSIONS"
    and m: "validateMomentEntries (map momentJson (moments r)) [] = Inr (moments r)"
    and n: "\<forall>x. note_text r = Some x \<longrightarrow> trim x \<noteq> []"
  shows "validateScoringResponse (resultsJson r) = ([], Inr r)"
proof -
  let ?q = "of_int (eloRating r) :: rat"
  have ne: "resultsJson r \<noteq> JNull" by (simp add: resultsJson_def)
  have q: "asFiniteNumber (getProp (resultsJson r) ''eloRating'') = Some ?q"
    by (simp add: getProp_resultsJson)
  have b: "100 \<le> ?q" "?q \<le> 3000" using e by simp_all
  have mr: "Math_round ?q = eloRating r" by (rule Math_round_of_int)
  have w: "fst (validateScoringResponse (resultsJson r)) = []"
    by (rule validate_warnings[OF ne q b]) (simp_all add: getProp_resultsJson mr t v)
  have "snd (validateScoringResponse (resultsJson r)) =
          Inr \<lparr>eloRating = Math_round ?q,
                tier = deriveTierFromRating (Math_round ?q),
                verdict = (if Math_round ?q \<ge> HIRED_THRESHOLD then ''HIRED'' else ''NOT HIRED''),
                bossSummary = bossSummary r,
                dimensions = dimensions r,
                moments = moments r,
                isPartial = (case asBoolean (getProp (resultsJson r) ''isPartial'') of
                               Some b \<Rightarrow> b | None \<Rightarrow> False),
                note_text = (case asString (getProp (resultsJson r) ''note'') of
                               None \<Rightarrow> None
                             | Some n \<Rightarrow> if length (trim n) > 0 then Some n else None)\<rparr>"
    by (rule validate_intro[OF ne q b _ s _ d l _ m]) (simp_all add: getProp_resultsJson)
  also have "\<dots> = Inr r"
  proof -
    have nt: "(case asString (getProp (resultsJson r) ''note'') of
                 None \<Rightarrow> None
               | Some n \<Rightarrow> if length (trim n) > 0 then Some n else None) = note_text r"
      using n by (cases "note_text r") (simp_all add: getProp_resultsJson)
    show ?thesis
      unfolding nt mr by (simp add: getProp_resultsJson t[symmetric] v[symmetric])
  qed
  finally have "snd (validateScoringResponse (resultsJson r)) = Inr r" .
  with w show ?thesis by (simp add: prod_eq_iff)
qed

text \<open>
  C5. The validator is idempotent on what it produces: when it accepts a payload and
  returns a result, the body of the response that carries this result (one property per
  field, \<open>note\<close> present only when the result has one) is accepted in turn, with no
  self-healing warning, and gives the same result.
\<close>

theorem validator_idempotent:
  assumes ok: "snd (validateScoringResponse parsed) = Inr r"
  shows "validateScoringResponse (resultsJson r) = ([], Inr r)"
proof -
  from ok obtain q summary ds names vds ms vms where
    f: "parsed \<noteq> JNull"
       "asFiniteNumber (getProp parsed ''eloRating'') = Some q"
       "100 \<le> q" "q \<le> 3000"
       "asString (getProp parsed ''bossSummary'') = Some summary"
       "trim summary \<noteq> []"
       "asArray (getProp parsed ''dimensions'') = Some ds"
       "validateDimensionEntries ds [] [] = Inr (names, vds)"
       "length names = length VALID_DIMENSIONS"
       "asArray (getProp parsed ''moments'') = Some ms"
       "validateMomentEntries ms [] = Inr vms"
    by (rule validate_elim)
  let ?R = "\<lparr>eloRating = Math_round q,
             tier = deriveTierFromRating (Math_round q),
             verdict = (if Math_round q \<ge> HIRED_THRESHOLD then ''HIRED'' else ''NOT HIRED''),
             bossSummary = summary,
             dimensions = vds,
             moments = vms,
             isPartial = (case asBoolean (getProp parsed ''isPartial'') of
                            Some b \<Rightarrow> b | None \<Rightarrow> False),
             note_text = (case asString (getProp parsed ''note'') of
                            None \<Rightarrow> None
                          | Some n \<Rightarrow> if length (trim n) > 0 then Some n else None)\<rparr>"
  have "snd (validateScoringResponse parsed) = Inr ?R"
    by (rule validate_intro[OF f])
  with ok have "Inr r = (Inr ?R :: thrown + ScoringResults)" by simp
  then have r: "r = ?R" by (rule Inr_inject)
  have dr: "dimensions r = vds" and mo: "moments r = vms" and bs: "bossSummary r = summary"
    and el: "eloRating r = Math_round q"
    and ti: "tier r = deriveTierFromRating (Math_round q)"
    and ve: "verdict r = (if Math_round q \<ge> HIRED_THRESHOLD then ''HIRED'' else ''NOT HIRED'')"
    and nt: "note_text r = (case asString (getProp parsed ''note'') of
                            None \<Rightarrow> None
                          | Some n \<Rightarrow> if length (trim n) > 0 then Some n else None)"
    by (subst r, simp)+
  have d: "validateDimensionEntries (map dimensionJson (dimensions r)) [] []
              = Inr (names, dimensions r)"
    using dims_loop[OF f(8)] unfolding dr by simp
  have m: "validateMomentEntries (map momentJson (moments r)) [] = Inr (moments r)"
    using moments_loop[OF f(11)] unfolding mo by simp
  have n: "\<forall>x. note_text r = Some x \<longrightarrow> trim x \<noteq> []"
    unfolding nt by (auto split: option.splits if_splits)
  show ?thesis
  proof (rule validate_canonical[OF _ _ _ _ _ d f(9) m n])
    show "100 \<le> eloRating r" "eloRating r \<le> 3000"
      using Math_round_range[OF f(3) f(4)] el by simp_all
    show "tier r = deriveTierFromRating (eloRating r)" using ti el by simp
    show "verdict r = (if eloRating r \<ge> HIRED_THRESHOLD then ''HIRED'' else ''NOT HIRED'')"
      using ve el by simp
    show "trim (bossSummary r) \<noteq> []" using f(6) bs by simp
  qed
qed

theorem validator_idempotent_witness:
  "snd (validateScoringResponse (samplePayload (4399 / 2) ''Impressive'' ''MAYBE''))
     = Inr (sampleResults 2200 ''Hired Material'' ''HIRED'')
   \<and> validateScoringResponse (resultsJson (sampleResults 2200 ''Hired Material'' ''HIRED''))
     = ([], Inr (sampleResults 2200 ''Hired Material'' ''HIRED''))"
proof -
  have h: "snd (validateScoringResponse (samplePayload (4399 / 2) ''Impressive'' ''MAYBE''))
             = Inr (sampleResults 2200 ''Hired Material'' ''HIRED'')"
    by (simp add: sample_payload_accepted)
  from h validator_idempotent[OF h] show ?thesis by (intro conjI)
qed

subsection \<open>Dimensions\<close>

lemma VALID_DIMENSIONS_distinct: "distinct VALID_DIMENSIONS \<and> length VALID_DIMENSIONS = 5"
  by (simp add: VALID_DIMENSIONS_def)

lemma dims_no_TypeError: "validateDimensionEntries ds ns acc \<noteq> Inl TypeError"
  by (induction ds arbitrary: ns acc) (simp_all split: option.split)

lemma moments_no_TypeError: "validateMomentEntries ms acc \<noteq> Inl TypeError"
  by (induction ms arbitrary: acc) (simp_all split: option.split)

lemma validate_throws:
  "snd (validateScoringResponse parsed) = Inl TypeError \<Longrightarrow> parsed = JNull"
  unfolding validateScoringResponse_def
  using dims_no_TypeError moments_no_TypeError
  by (cases "parsed = JNull")
     (auto simp: Let_def split: option.splits if_splits sum.splits prod.splits)

text \<open>What an accepted payload has in its \<open>dimensions\<close> property, and what the result has.\<close>

lemma accepted_dimensions:
  assumes ok: "snd (validateScoringResponse parsed) = Inr r"
  obtains ds where
    "asArray (getProp parsed ''dimensions'') = Some ds"
    and "ds \<noteq> []"
    and "\<forall>d \<in> set ds. \<exists>n. asString (getProp d ''name'') = Some n \<and> n \<in> set VALID_DIMENSIONS"
    and "distinct (map (\<lambda>d. asString (getProp d ''name'')) ds)"
    and "\<forall>k \<in> set VALID_DIMENSIONS. \<exists>d \<in> set ds. asString (getProp d ''name'') = Some k"
    and "\<forall>d \<in> set ds. asFiniteNumber (getProp d ''score'') \<noteq> None"
    and "\<forall>d \<in> set ds. \<exists>f. asString (getProp d ''feedback'') = Some f \<and> trim f \<noteq> []"
    and "length (dimensions r) = 5"
    and "distinct (map dim_name (dimensions r))"
    and "set (map dim_name (dimensions r)) = set VALID_DIMENSIONS"
    and "\<forall>d \<in> set (dimensions r). trim (dim_feedback d) \<noteq> []"
proof -
  from ok obtain q summary ds names vds ms vms where
    f: "parsed \<noteq> JNull"
       "asFiniteNumber (getProp parsed ''eloRating'') = Some q"
       "100 \<le> q" "q \<le> 3000"
       "asString (getProp parsed ''bossSummary'') = Some summary"
       "trim summary \<noteq> []"
       "asArray (getProp parsed ''dimensions'') = Some ds"
       "validateDimensionEntries ds [] [] = Inr (names, vds)"
       "length names = length VALID_DIMENSIONS"
       "asArray (getProp parsed ''moments'') = Some ms"
       "validateMomentEntries ms [] = Inr vms"
    by (rule validate_elim)
  have "snd (validateScoringResponse parsed) =
          Inr \<lparr>eloRating = Math_round q,
                tier = deriveTierFromRating (Math_round q),
                verdict = (if Math_round q \<ge> HIRED_THRESHOLD then ''HIRED'' else ''NOT HIRED''),
                bossSummary = summary,
                dimensions = vds,
                moments = vms,
                isPartial = (case asBoolean (getProp parsed ''isPartial'') of
                               Some b \<Rightarrow> b | None \<Rightarrow> False),
                note_text = (case asString (getProp parsed ''note'') of
                               None \<Rightarrow> None
                             | Some n \<Rightarrow> if length (trim n) > 0 then Some n else None)\<rparr>"
    by (rule validate_intro[OF f])
  with ok have dr: "dimensions r = vds" by auto
  note L = dims_loop[OF f(8)]
  have names: "names = map dim_name vds" using L by simp
  have same: "map Some names = map (\<lambda>d. asString (getProp d ''name'')) ds"
    using L by simp
  have len: "length ds = 5"
    using same f(9) VALID_DIMENSIONS_distinct by (metis length_map)
  have valid: "\<forall>d \<in> set ds. \<exists>n. asString (getProp d ''name'') = Some n \<and> n \<in> set VALID_DIMENSIONS"
    using L by blast
  have dist: "distinct (map (\<lambda>d. asString (getProp d ''name'')) ds)"
    using L by blast
  have dn: "distinct names"
    using dist same by (metis distinct_map)
  have sub: "set names \<subseteq> set VALID_DIMENSIONS"
  proof
    fix n assume "n \<in> set names"
    then have "Some n \<in> set (map (\<lambda>d. asString (getProp d ''name'')) ds)"
      using same by (metis imageI set_map)
    then show "n \<in> set VALID_DIMENSIONS" using valid by auto
  qed
  have "card (set names) = card (set VALID_DIMENSIONS)"
    using dn f(9) VALID_DIMENSIONS_distinct by (simp add: distinct_card)
  then have seteq: "set names = set VALID_DIMENSIONS"
    using sub by (simp add: card_subset_eq)
  have all: "\<forall>k \<in> set VALID_DIMENSIONS. \<exists>d \<in> set ds. asString (getProp d ''name'') = Some k"
  proof
    fix k assume "k \<in> set VALID_DIMENSIONS"
    then have "Some k \<in> set (map Some names)" using seteq by simp
    then have "Some k \<in> set (map (\<lambda>d. asString (getProp d ''name'')) ds)"
      using same by simp
    then show "\<exists>d \<in> set ds. asString (getProp d ''name'') = Some k" by auto
  qed
  have re: "validateDimensionEntries (map dimensionJson vds) [] [] = Inr (names, vds)"
    using L by simp
  have fb: "\<forall>d \<in> set vds. trim (dim_feedback d) \<noteq> []"
    using dims_loop[OF re] by (simp add: dimensionJson_def)
  show thesis
  proof (rule that[OF f(7) _ valid dist all])
    show "ds \<noteq> []" using len by auto
    show "\<forall>d \<in> set ds. asFiniteNumber (getProp d ''score'') \<noteq> None" using L by blast
    show "\<forall>d \<in> set ds. \<exists>f. asString (getProp d ''feedback'') = Some f \<and> trim f \<noteq> []"
      using L by blast
    show "length (dimensions r) = 5"
      unfolding dr using names f(9) VALID_DIMENSIONS_distinct by (metis length_map)
    show "distinct (map dim_name (dimensions r))" unfolding dr using dn names by simp
    show "set (map dim_name (dimensions r)) = set VALID_DIMENSIONS"
      unfolding dr using seteq names by simp
    show "\<forall>d \<in> set (dimensions r). trim (dim_feedback d) \<noteq> []" unfolding dr by (rule fb)
  qed
qed

text \<open>
  C6. A payload is rejected, by a thrown error (an \<open>Error\<close> with its reason, unless the
  payload itself is \<open>null\<close>), whenever its \<open>dimensions\<close> property is not an array, is
  the empty array, has an entry whose name is not one of the five keys (or is not a
  string), has two entries with the same name, lacks an entry for one of the five keys,
  has an entry whose score is not a finite number, or has an entry whose feedback is
  missing or empty after trimming. So an accepted result has exactly five dimensions,
  with distinct names that are exactly the five keys, each with non-empty feedback.
\<close>

theorem dimensions_validated:
  "((asArray (getProp parsed ''dimensions'') = None
     \<or> (\<exists>ds. asArray (getProp parsed ''dimensions'') = Some ds \<and>
          (ds = []
           \<or> (\<exists>d \<in> set ds. \<forall>n. asString (getProp d ''name'') = Some n
                                 \<longrightarrow> n \<notin> set VALID_DIMENSIONS)
           \<or> \<not> distinct (map (\<lambda>d. asString (getProp d ''name'')) ds)
           \<or> (\<exists>k \<in> set VALID_DIMENSIONS. \<forall>d \<in> set ds. asString (getProp d ''name'') \<noteq> Some k)
           \<or> (\<exists>d \<in> set ds. asFiniteNumber (getProp d ''score'') = None)
           \<or> (\<exists>d \<in> set ds. \<forall>f. asString (getProp d ''feedback'') = Some f
                                 \<longrightarrow> trim f = []))))
    \<longrightarrow> (\<exists>e. snd (validateScoringResponse parsed) = Inl e
             \<and> (e = TypeError \<longrightarrow> parsed = JNull)))
   \<and> (snd (validateScoringResponse parsed) = Inr r
        \<longrightarrow> length (dimensions r) = 5
          \<and> distinct (map dim_name (dimensions r))
          \<and> set (map dim_name (dimensions r)) = set VALID_DIMENSIONS
          \<and> (\<forall>d \<in> set (dimensions r). trim (dim_feedback d) \<noteq> []))"
proof (intro conjI impI)
  assume defect: "asArray (getProp parsed ''dimensions'') = None
     \<or> (\<exists>ds. asArray (getProp parsed ''dimensions'') = Some ds \<and>
          (ds = []
           \<or> (\<exists>d \<in> set ds. \<forall>n. asString (getProp d ''name'') = Some n
                                 \<longrightarrow> n \<notin> set VALID_DIMENSIONS)
           \<or> \<not> distinct (map (\<lambda>d. asString (getProp d ''name'')) ds)
           \<or> (\<exists>k \<in> set VALID_DIMENSIONS. \<forall>d \<in> set ds. asString (getProp d ''name'') \<noteq> Some k)
           \<or> (\<exists>d \<in> set ds. asFiniteNumber (getProp d ''score'') = None)
           \<or> (\<exists>d \<in> set ds. \<forall>f. asString (getProp d ''feedback'') = Some f
                                 \<longrightarrow> trim f = [])))"
  show "\<exists>e. snd (validateScoringResponse parsed) = Inl e \<and> (e = TypeError \<longrightarrow> parsed = JNull)"
  proof (cases "snd (validateScoringResponse parsed)")
    case (Inl e)
    then show ?thesis using validate_throws by blast
  next
    case (Inr r')
    then obtain ds where
      a: "asArray (getProp parsed ''dimensions'') = Some ds"
      and b: "ds \<noteq> []"
      and c: "\<forall>d \<in> set ds. \<exists>n. asString (getProp d ''name'') = Some n \<and> n \<in> set VALID_DIMENSIONS"
      and d: "distinct (map (\<lambda>d. asString (getProp d ''name'')) ds)"
      and e: "\<forall>k \<in> set VALID_DIMENSIONS. \<exists>d \<in> set ds. asString (getProp d ''name'') = Some k"
      and f: "\<forall>d \<in> set ds. asFiniteNumber (getProp d ''score'') \<noteq> None"
      and g: "\<forall>d \<in> set ds. \<exists>f. asString (getProp d ''feedback'') = Some f \<and> trim f \<noteq> []"
      by (rule accepted_dimensions)
    from defect a have "ds = []
           \<or> (\<exists>d \<in> set ds. \<forall>n. asString (getProp d ''name'') = Some n
                                 \<longrightarrow> n \<notin> set VALID_DIMENSIONS)
           \<or> \<not> distinct (map (\<lambda>d. asString (getProp d ''name'')) ds)
           \<or> (\<exists>k \<in> set VALID_DIMENSIONS. \<forall>d \<in> set ds. asString (getProp d ''name'') \<noteq> Some k)
           \<or> (\<exists>d \<in> set ds. asFiniteNumber (getProp d ''score'') = None)
           \<or> (\<exists>d \<in> set ds. \<forall>f. asString (getProp d ''feedback'') = Some f
                                 \<longrightarrow> trim f = [])"
      by simp
    then have False
    proof (elim disjE)
      assume "ds = []" with b show False by simp
    next
      assume "\<exists>d \<in> set ds. \<forall>n. asString (getProp d ''name'') = Some n
                                 \<longrightarrow> n \<notin> set VALID_DIMENSIONS"
      with c show False by blast
    next
      assume "\<not> distinct (map (\<lambda>d. asString (getProp d ''name'')) ds)"
      with d show False by simp
    next
      assume "\<exists>k \<in> set VALID_DIMENSIONS. \<forall>d \<in> set ds. asString (getProp d ''name'') \<noteq> Some k"
      with e show False by blast
    next
      assume "\<exists>d \<in> set ds. asFiniteNumber (getProp d ''score'') = None"
      with f show False by blast
    next
      assume "\<exists>d \<in> set ds. \<forall>f. asString (getProp d ''feedback'') = Some f \<longrightarrow> trim f = []"
      with g show False by blast
    qed
    then show ?thesis ..
  qed
next
  assume ok: "snd (validateScoringResponse parsed) = Inr r"
  from ok show "length (dimensions r) = 5" by (rule accepted_dimensions)
  from ok show "distinct (map dim_name (dimensions r))" by (rule accepted_dimensions)
  from ok show "set (map dim_name (dimensions r)) = set VALID_DIMENSIONS"
    by (rule accepted_dimensions)
  from ok show "\<forall>d \<in> set (dimensions r). trim (dim_feedback d) \<noteq> []"
    by (rule accepted_dimensions)
qed

theorem dimensions_validated_witness:
  "isl (snd (validateScoringResponse payloadMissingDimension))
   \<and> snd (validateScoringResponse (samplePayload (4399 / 2) ''Impressive'' ''MAYBE''))
       = Inr (sampleResults 2200 ''Hired Material'' ''HIRED'')
   \<and> length (dimensions (sampleResults 2200 ''Hired Material'' ''HIRED'')) = 5
   \<and> set (map dim_name (dimensions (sampleResults 2200 ''Hired Material'' ''HIRED'')))
       = set VALID_DIMENSIONS"
proof -
  let ?ds = "map sampleDimension (tl VALID_DIMENSIONS)"
  have a: "asArray (getProp payloadMissingDimension ''dimensions'') = Some ?ds"
    by (simp add: payloadMissingDimension_def)
  have m: "\<exists>k \<in> set VALID_DIMENSIONS. \<forall>d \<in> set ?ds. asString (getProp d ''name'') \<noteq> Some k"
    by (rule bexI[of _ "''communication''"])
       (simp_all add: VALID_DIMENSIONS_def sampleDimension_def)
  have defect: "asArray (getProp payloadMissingDimension ''dimensions'') = None
     \<or> (\<exists>ds. asArray (getProp payloadMissingDimension ''dimensions'') = Some ds \<and>
          (ds = []
           \<or> (\<exists>d \<in> set ds. \<forall>n. asString (getProp d ''name'') = Some n
                                 \<longrightarrow> n \<notin> set VALID_DIMENSIONS)
           \<or> \<not> distinct (map (\<lambda>d. asString (getProp d ''name'')) ds)
           \<or> (\<exists>k \<in> set VALID_DIMENSIONS. \<forall>d \<in> set ds. asString (getProp d ''name'') \<noteq> Some k)
           \<or> (\<exists>d \<in> set ds. asFiniteNumber (getProp d ''score'') = None)
           \<or> (\<exists>d \<in> set ds. \<forall>f. asString (getProp d ''feedback'') = Some f
                                 \<longrightarrow> trim f = [])))"
    using a m by blast
  have h: "snd (validateScoringResponse (samplePayload (4399 / 2) ''Impressive'' ''MAYBE''))
             = Inr (sampleResults 2200 ''Hired Material'' ''HIRED'')"
    by (simp add: sample_payload_accepted)
  from dimensions_validated[of payloadMissingDimension, THEN conjunct1, THEN mp, OF defect]
  have r: "isl (snd (validateScoringResponse payloadMissingDimension))"
    by auto
  note s = dimensions_validated[of "samplePayload (4399 / 2) ''Impressive'' ''MAYBE''"
      "sampleResults 2200 ''Hired Material'' ''HIRED''", THEN conjunct2, THEN mp, OF h]
  from r h s show ?thesis by blast
qed

section \<open>Properties of the wizard state\<close>

text \<open>
  C10. After \<open>resetForRetry\<close> the two CV fields are those of the state it read, the step
  is the interview step, and every other field has the value it has in the initial
  state.
\<close>

theorem resetForRetry_frame:
  "cvText (resetForRetry s) = cvText s
   \<and> cvFileName (resetForRetry s) = cvFileName s
   \<and> step (resetForRetry s) = Interview
   \<and> conversationId (resetForRetry s) = conversationId INITIAL_STATE
   \<and> transcript (resetForRetry s) = transcript INITIAL_STATE
   \<and> results (resetForRetry s) = results INITIAL_STATE
   \<and> analysisPhase (resetForRetry s) = analysisPhase INITIAL_STATE
   \<and> error (resetForRetry s) = error INITIAL_STATE
   \<and> loading (resetForRetry s) = loading INITIAL_STATE
   \<and> conversationId INITIAL_STATE = None \<and> transcript INITIAL_STATE = None
   \<and> results INITIAL_STATE = None \<and> analysisPhase INITIAL_STATE = None
   \<and> error INITIAL_STATE = None \<and> loading INITIAL_STATE = False"
  by (simp add: resetForRetry_def INITIAL_STATE_def)

section \<open>Properties of the rate limiter\<close>

lemma rateLimit_success_iff:
  "success (fst (rateLimit st now identifier maxRequests windowMs namespace))
     \<longleftrightarrow> int (length (filter (\<lambda>t. now - t < windowMs)
                         (stored st (namespace @ '':'' @ identifier)))) < maxRequests"
  unfolding rateLimit_def stored_def by (simp add: Let_def)

lemma rateLimit_stored:
  "stored (snd (rateLimit st now identifier maxRequests windowMs namespace))
      (namespace @ '':'' @ identifier)
   = (let valid = filter (\<lambda>t. now - t < windowMs) (stored st (namespace @ '':'' @ identifier))
      in if int (length valid) < maxRequests then valid @ [now] else valid)"
  unfolding rateLimit_def stored_def by (simp add: Let_def)

lemma rateLimit_store_key:
  "rateLimitStore (snd (rateLimit st now identifier maxRequests windowMs namespace))
      (namespace @ '':'' @ identifier)
   = Some (stored (snd (rateLimit st now identifier maxRequests windowMs namespace))
             (namespace @ '':'' @ identifier))"
  unfolding rateLimit_def stored_def by (simp add: Let_def)

text \<open>
  C9. A call that is denied stores, under its key, exactly the pruned list of the
  timestamps that were stored before: nothing is added, and the clock reading of the
  denied call is recorded only if it was already there.
\<close>

theorem denied_call_records_nothing:
  assumes "\<not> success (fst (rateLimit st now identifier maxRequests windowMs namespace))"
  shows "rateLimitStore (snd (rateLimit st now identifier maxRequests windowMs namespace))
           (namespace @ '':'' @ identifier)
         = Some (filter (\<lambda>t. now - t < windowMs) (stored st (namespace @ '':'' @ identifier)))
       \<and> remaining (fst (rateLimit st now identifier maxRequests windowMs namespace)) = 0
       \<and> length (stored (snd (rateLimit st now identifier maxRequests windowMs namespace))
                   (namespace @ '':'' @ identifier))
           \<le> length (stored st (namespace @ '':'' @ identifier))"
  using assms unfolding rateLimit_def stored_def
  by (simp add: Let_def split: if_splits)

theorem denied_call_records_nothing_witness:
  "\<not> success (fst (rateLimit (snd (rateLimit freshLimiter 0 ''10.0.0.1'' 1 60000 ''upload''))
                      10 ''10.0.0.1'' 1 60000 ''upload''))
   \<and> rateLimitStore (snd (rateLimit (snd (rateLimit freshLimiter 0 ''10.0.0.1'' 1 60000 ''upload''))
                      10 ''10.0.0.1'' 1 60000 ''upload'')) ''upload:10.0.0.1'' = Some [0]"
proof -
  let ?st = "snd (rateLimit freshLimiter 0 ''10.0.0.1'' 1 60000 ''upload'')"
  have s: "stored ?st (''upload'' @ '':'' @ ''10.0.0.1'') = [0]"
    unfolding rateLimit_stored by (simp add: stored_def freshLimiter_def)
  have h: "\<not> success (fst (rateLimit ?st 10 ''10.0.0.1'' 1 60000 ''upload''))"
    unfolding rateLimit_success_iff s by simp
  from denied_call_records_nothing[OF h, THEN conjunct1] s h
  show ?thesis by simp
qed

lemma admissions_Cons:
  "fst (admissions st (now # nows) identifier maxRequests windowMs namespace)
   = success (fst (rateLimit st now identifier maxRequests windowMs namespace))
     # fst (admissions (snd (rateLimit st now identifier maxRequests windowMs namespace))
              nows identifier maxRequests windowMs namespace)"
  by (simp add: split_beta Let_def)

lemma burst_general:
  assumes "\<forall>now \<in> set nows. filter (\<lambda>t. now - t < w) (stored st (ns @ '':'' @ ident)) = recent"
    and "\<forall>a \<in> set nows. \<forall>b \<in> set nows. b - a < w"
  shows "fst (admissions st nows ident N w ns)
         = replicate (min (length nows) (nat (N - int (length recent)))) True
           @ replicate (length nows - nat (N - int (length recent))) False"
  using assms
proof (induction nows arbitrary: st recent)
  case Nil
  then show ?case by simp
next
  case (Cons now rest)
  let ?key = "ns @ '':'' @ ident"
  let ?st' = "snd (rateLimit st now ident N w ns)"
  have v: "filter (\<lambda>t. now - t < w) (stored st ?key) = recent"
    using Cons.prems(1) by simp
  have keep: "filter (\<lambda>t. n - t < w) recent = recent" if "n \<in> set rest" for n
  proof -
    have e: "filter (\<lambda>t. n - t < w) (stored st ?key) = recent"
      using Cons.prems(1) that by simp
    have "filter (\<lambda>t. n - t < w) recent
            = filter (\<lambda>t. n - t < w) (filter (\<lambda>t. n - t < w) (stored st ?key))"
      by (simp only: e)
    also have "\<dots> = filter (\<lambda>t. n - t < w) (stored st ?key)" by simp
    also have "\<dots> = recent" by (rule e)
    finally show ?thesis .
  qed
  have win: "\<forall>a \<in> set rest. \<forall>b \<in> set rest. b - a < w"
    using Cons.prems(2) by simp
  show ?case
  proof (cases "int (length recent) < N")
    case True
    then have s: "success (fst (rateLimit st now ident N w ns))"
      unfolding rateLimit_success_iff v by simp
    have st': "stored ?st' ?key = recent @ [now]"
      unfolding rateLimit_stored v using True by simp
    have inv: "\<forall>n \<in> set rest. filter (\<lambda>t. n - t < w) (stored ?st' ?key) = recent @ [now]"
      unfolding st' using keep Cons.prems(2) by simp
    have ih: "fst (admissions ?st' rest ident N w ns)
         = replicate (min (length rest) (nat (N - int (length (recent @ [now]))))) True
           @ replicate (length rest - nat (N - int (length (recent @ [now])))) False"
      by (rule Cons.IH[OF inv win])
    have n: "nat (N - int (length recent)) = Suc (nat (N - int (length (recent @ [now]))))"
      using True by simp
    show ?thesis
      unfolding admissions_Cons ih n using s by simp
  next
    case False
    then have s: "\<not> success (fst (rateLimit st now ident N w ns))"
      unfolding rateLimit_success_iff v by simp
    have st': "stored ?st' ?key = recent"
      unfolding rateLimit_stored v using False by simp
    have inv: "\<forall>n \<in> set rest. filter (\<lambda>t. n - t < w) (stored ?st' ?key) = recent"
      unfolding st' using keep by simp
    have ih: "fst (admissions ?st' rest ident N w ns)
         = replicate (min (length rest) (nat (N - int (length recent)))) True
           @ replicate (length rest - nat (N - int (length recent))) False"
      by (rule Cons.IH[OF inv win])
    have n: "nat (N - int (length recent)) = 0"
      using False by simp
    show ?thesis
      unfolding admissions_Cons ih n using s by simp
  qed
qed

text \<open>
  C4. A call is admitted exactly when fewer than \<open>maxRequests\<close> of the timestamps stored
  for its key are unexpired, and an admitted call stores the unexpired timestamps
  followed by its own clock reading. So, for a key whose stored timestamps (if any) are
  expired throughout, \<open>n + 1\<close> calls in a row under a policy of \<open>n\<close> requests, at
  clock readings that lie pairwise within the window, are admitted \<open>n\<close> times and then
  denied once. And when every timestamp stored for the key is a full window old, a call
  under a policy of at least one request (there is an admission to repeat) is admitted
  again.
\<close>

theorem sliding_window_admission:
  "(success (fst (rateLimit st now ident N w ns))
      \<longleftrightarrow> int (length (filter (\<lambda>t. now - t < w) (stored st (ns @ '':'' @ ident)))) < N)
   \<and> (success (fst (rateLimit st now ident N w ns))
        \<longrightarrow> rateLimitStore (snd (rateLimit st now ident N w ns)) (ns @ '':'' @ ident)
            = Some (filter (\<lambda>t. now - t < w) (stored st (ns @ '':'' @ ident)) @ [now]))
   \<and> (length nows = Suc n
        \<and> (\<forall>t \<in> set (stored st (ns @ '':'' @ ident)). \<forall>c \<in> set nows. \<not> c - t < w)
        \<and> (\<forall>a \<in> set nows. \<forall>b \<in> set nows. b - a < w)
        \<longrightarrow> fst (admissions st nows ident (int n) w ns) = replicate n True @ [False])
   \<and> (0 < N \<and> (\<forall>t \<in> set (stored st (ns @ '':'' @ ident)). w \<le> now - t)
        \<longrightarrow> success (fst (rateLimit st now ident N w ns)))"
proof (intro conjI impI)
  show "success (fst (rateLimit st now ident N w ns))
      \<longleftrightarrow> int (length (filter (\<lambda>t. now - t < w) (stored st (ns @ '':'' @ ident)))) < N"
    by (rule rateLimit_success_iff)
next
  assume s: "success (fst (rateLimit st now ident N w ns))"
  then have "int (length (filter (\<lambda>t. now - t < w) (stored st (ns @ '':'' @ ident)))) < N"
    by (simp only: rateLimit_success_iff)
  then show "rateLimitStore (snd (rateLimit st now ident N w ns)) (ns @ '':'' @ ident)
            = Some (filter (\<lambda>t. now - t < w) (stored st (ns @ '':'' @ ident)) @ [now])"
    unfolding rateLimit_store_key rateLimit_stored by (simp add: Let_def)
next
  assume a: "length nows = Suc n
        \<and> (\<forall>t \<in> set (stored st (ns @ '':'' @ ident)). \<forall>c \<in> set nows. \<not> c - t < w)
        \<and> (\<forall>a \<in> set nows. \<forall>b \<in> set nows. b - a < w)"
  then have inv: "\<forall>c \<in> set nows. filter (\<lambda>t. c - t < w) (stored st (ns @ '':'' @ ident)) = []"
    by (simp add: filter_empty_conv)
  from a have win: "\<forall>a \<in> set nows. \<forall>b \<in> set nows. b - a < w" by simp
  show "fst (admissions st nows ident (int n) w ns) = replicate n True @ [False]"
    unfolding burst_general[OF inv win] using a by simp
next
  assume a: "0 < N \<and> (\<forall>t \<in> set (stored st (ns @ '':'' @ ident)). w \<le> now - t)"
  then have "filter (\<lambda>t. now - t < w) (stored st (ns @ '':'' @ ident)) = []"
    by (auto simp: filter_empty_conv)
  then show "success (fst (rateLimit st now ident N w ns))"
    unfolding rateLimit_success_iff using a by simp
qed

lemma burst_state:
  "stored (snd (admissions freshLimiter [0, 10, 20] ''10.0.0.1'' 2 60000 ''upload''))
     (''upload'' @ '':'' @ ''10.0.0.1'') = [0, 10]"
  by (simp add: split_beta Let_def rateLimit_def stored_def freshLimiter_def)

theorem sliding_window_admission_witness:
  "fst (admissions freshLimiter [0, 10, 20] ''10.0.0.1'' 2 60000 ''upload'')
     = [True, True, False]
   \<and> success (fst (rateLimit
         (snd (admissions freshLimiter [0, 10, 20] ''10.0.0.1'' 2 60000 ''upload''))
         60010 ''10.0.0.1'' 2 60000 ''upload''))"
proof -
  let ?st = "snd (admissions freshLimiter [0, 10, 20] ''10.0.0.1'' 2 60000 ''upload'')"
  have e: "stored freshLimiter (''upload'' @ '':'' @ ''10.0.0.1'') = []"
    by (simp add: stored_def freshLimiter_def)
  have h1: "length [0, 10, 20 :: int] = Suc 2
        \<and> (\<forall>t \<in> set (stored freshLimiter (''upload'' @ '':'' @ ''10.0.0.1'')).
              \<forall>c \<in> set [0, 10, 20]. \<not> c - t < 60000)
        \<and> (\<forall>a \<in> set [0, 10, 20 :: int]. \<forall>b \<in> set [0, 10, 20]. b - a < 60000)"
    unfolding e by simp
  have h2: "(0::int) < 2 \<and> (\<forall>t \<in> set (stored ?st (''upload'' @ '':'' @ ''10.0.0.1'')).
              (60000::int) \<le> 60010 - t)"
    unfolding burst_state by simp
  have a: "fst (admissions freshLimiter [0, 10, 20] ''10.0.0.1'' 2 60000 ''upload'')
     = [True, True, False]"
    using sliding_window_admission[of freshLimiter 0 "''10.0.0.1''" 2 60000 "''upload''"
        "[0, 10, 20]" 2, THEN conjunct2, THEN conjunct2, THEN conjunct1, THEN mp, OF h1]
    by (simp add: numeral_2_eq_2)
  have b: "success (fst (rateLimit ?st 60010 ''10.0.0.1'' 2 60000 ''upload''))"
    by (rule sliding_window_admission[of ?st 60010 "''10.0.0.1''" 2 60000 "''upload''"
        "[]" 0, THEN conjunct2, THEN conjunct2, THEN conjunct2, THEN mp, OF h2])
  from a b show ?thesis by (intro conjI)
qed

section \<open>Properties of the transcript retriever\<close>









section \<open>Properties of the scoring route\<close>

lemma jsonMatch_iff:
  "jsonMatch text = Some m \<longleftrightarrow>
     (\<exists>pre mid post. text = pre @ [CHR ''{''] @ mid @ [CHR ''}''] @ post
        \<and> CHR ''{'' \<notin> set pre \<and> CHR ''}'' \<notin> set post
        \<and> m = [CHR ''{''] @ mid @ [CHR ''}''])"
proof
  assume a: "jsonMatch text = Some m"
  let ?P = "\<lambda>c. c \<noteq> CHR ''{''" and ?Q = "\<lambda>c. c \<noteq> CHR ''}''"
  from a obtain brace rest where d: "dropWhile ?P text = brace # rest"
    unfolding jsonMatch_def by (cases "dropWhile ?P text") simp_all
  from d have br: "brace = CHR ''{''"
  proof -
    have "dropWhile ?P text \<noteq> []" using d by simp
    then have "\<not> ?P (hd (dropWhile ?P text))" by (rule hd_dropWhile)
    then show ?thesis using d by simp
  qed
  from a d have cl: "CHR ''}'' \<in> set rest"
    unfolding jsonMatch_def by (cases "CHR ''}'' \<in> set rest") simp_all
  from a d cl have m: "m = brace # rev (dropWhile ?Q (rev rest))"
    unfolding jsonMatch_def by simp
  have t: "text = takeWhile ?P text @ brace # rest"
    using d by (metis takeWhile_dropWhile_id)
  have ne: "dropWhile ?Q (rev rest) \<noteq> []"
    using cl by (simp add: dropWhile_eq_Nil_conv)
  then obtain y ys where dq: "dropWhile ?Q (rev rest) = y # ys"
    by (cases "dropWhile ?Q (rev rest)") simp_all
  have y: "y = CHR ''}''"
  proof -
    have "\<not> ?Q (hd (dropWhile ?Q (rev rest)))" using ne by (rule hd_dropWhile)
    then show ?thesis using dq by simp
  qed
  have "rev rest = takeWhile ?Q (rev rest) @ y # ys"
    using dq by (metis takeWhile_dropWhile_id)
  then have "rev (rev rest) = rev (takeWhile ?Q (rev rest) @ y # ys)" by simp
  then have r: "rest = rev ys @ [y] @ rev (takeWhile ?Q (rev rest))" by simp
  have p1: "CHR ''{'' \<notin> set (takeWhile ?P text)"
    by (metis (mono_tags, lifting) set_takeWhileD)
  have p2: "CHR ''}'' \<notin> set (rev (takeWhile ?Q (rev rest)))"
    by (metis (mono_tags, lifting) set_rev set_takeWhileD)
  have t': "text = takeWhile ?P text @ [CHR ''{''] @ rev ys @ [CHR ''}'']
              @ rev (takeWhile ?Q (rev rest))"
    using t r br y by simp
  have m': "m = [CHR ''{''] @ rev ys @ [CHR ''}'']"
    using m dq br y by simp
  from t' p1 p2 m' show "\<exists>pre mid post. text = pre @ [CHR ''{''] @ mid @ [CHR ''}''] @ post
        \<and> CHR ''{'' \<notin> set pre \<and> CHR ''}'' \<notin> set post
        \<and> m = [CHR ''{''] @ mid @ [CHR ''}'']"
    by blast
next
  assume "\<exists>pre mid post. text = pre @ [CHR ''{''] @ mid @ [CHR ''}''] @ post
        \<and> CHR ''{'' \<notin> set pre \<and> CHR ''}'' \<notin> set post
        \<and> m = [CHR ''{''] @ mid @ [CHR ''}'']"
  then obtain pre mid post where
    t: "text = pre @ [CHR ''{''] @ mid @ [CHR ''}''] @ post"
    and p1: "CHR ''{'' \<notin> set pre" and p2: "CHR ''}'' \<notin> set post"
    and m: "m = [CHR ''{''] @ mid @ [CHR ''}'']"
    by blast
  have d: "dropWhile (\<lambda>c. c \<noteq> CHR ''{'') text = CHR ''{'' # (mid @ [CHR ''}''] @ post)"
    unfolding t using p1 by (auto simp: dropWhile_append3)
  have r: "rev (mid @ [CHR ''}''] @ post) = rev post @ CHR ''}'' # rev mid" by simp
  have q: "dropWhile (\<lambda>c. c \<noteq> CHR ''}'') (rev (mid @ [CHR ''}''] @ post)) = CHR ''}'' # rev mid"
    unfolding r using p2 by (auto simp: dropWhile_append3)
  show "jsonMatch text = Some m"
    using q unfolding jsonMatch_def d m by simp
qed

text \<open>
  Step 7 on any text and any parser: the raw parse of the trimmed text comes first; when
  it fails, the match of the brace pattern in the untrimmed text is parsed, which is the
  span from the first opening brace to the last closing brace after it; the step fails
  exactly when both fail, and the response is then the opaque error.
\<close>

lemma parseResponseText_cases:
  "(P (trim text) = Some v \<longrightarrow> parseResponseText P text = Some v)
   \<and> (P (trim text) = None \<longrightarrow>
        parseResponseText P text = (case jsonMatch text of None \<Rightarrow> None | Some m \<Rightarrow> P m))
   \<and> (parseResponseText P text = None \<longleftrightarrow>
        P (trim text) = None \<and> (\<forall>m'. jsonMatch text = Some m' \<longrightarrow> P m' = None))
   \<and> (parseResponseText P (blockTexts content) = None \<longrightarrow>
        scoreMessage P content = ErrorJson 500 ''Failed to score the interview'')"
proof (intro conjI impI)
  assume "P (trim text) = Some v"
  then show "parseResponseText P text = Some v"
    unfolding parseResponseText_def by simp
next
  assume "P (trim text) = None"
  then show "parseResponseText P text = (case jsonMatch text of None \<Rightarrow> None | Some m \<Rightarrow> P m)"
    unfolding parseResponseText_def by simp
next
  show "parseResponseText P text = None \<longleftrightarrow>
        P (trim text) = None \<and> (\<forall>m'. jsonMatch text = Some m' \<longrightarrow> P m' = None)"
    unfolding parseResponseText_def by (auto split: option.splits)
next
  assume "parseResponseText P (blockTexts content) = None"
  then show "scoreMessage P content = ErrorJson 500 ''Failed to score the interview''"
    unfolding scoreMessage_def by (simp add: Let_def)
qed

lemma sample_payload_1250:
  "snd (validateScoringResponse (samplePayload 1250 ''Adequate'' ''NOT HIRED''))
     = Inr (sampleResults 1250 ''Adequate'' ''NOT HIRED'')"
  by code_simp

lemma sample_texts_parse:
  "parseSample (trim samplePayloadText) = Some (samplePayload 1250 ''Adequate'' ''NOT HIRED'')"
  "parseSample (trim fencedPayloadText) = None"
  "jsonMatch fencedPayloadText = Some samplePayloadText"
  "parseSample samplePayloadText = Some (samplePayload 1250 ''Adequate'' ''NOT HIRED'')"
  "parseSample (trim remarkedPayloadText) = None"
  "jsonMatch remarkedPayloadText
     = Some (samplePayloadText @ newline @ ''Scores use the {1-10}'')"
  "parseSample (samplePayloadText @ newline @ ''Scores use the {1-10}'') = None"
  by code_simp+

text \<open>
  C7. The raw parse of the trimmed text comes first, and the fallback runs when it fails:
  the sample payload alone, and the sample payload in a markdown fence, are both scored.
  But the fallback does not extract the first balanced object. On the sample payload
  followed by the remark \<open>Scores use the {1-10} scale.\<close> the first balanced object is the
  payload, which parses and validates; the brace pattern matches from the first opening
  brace of the payload to the closing brace of the remark, that span is not JSON, and the
  response is the opaque "Failed to score the interview" error although a parse of the
  first balanced object would not fail.
\<close>

theorem fallback_misses_first_object:
  "scoreMessage parseSample [TextBlock samplePayloadText]
     = ResultsJson (sampleResults 1250 ''Adequate'' ''NOT HIRED'')
   \<and> scoreMessage parseSample [TextBlock fencedPayloadText]
     = ResultsJson (sampleResults 1250 ''Adequate'' ''NOT HIRED'')
   \<and> firstBalancedObject_spec remarkedPayloadText = Some samplePayloadText
   \<and> jsonMatch remarkedPayloadText
     = Some (samplePayloadText @ newline @ ''Scores use the {1-10}'')
   \<and> parseResponseText parseSample remarkedPayloadText = None
   \<and> scoreMessage parseSample [TextBlock remarkedPayloadText]
     = ErrorJson 500 ''Failed to score the interview''"
proof (intro conjI)
  have ne: "trim samplePayloadText \<noteq> []" "trim fencedPayloadText \<noteq> []"
    by code_simp+
  have p1: "parseResponseText parseSample samplePayloadText
              = Some (samplePayload 1250 ''Adequate'' ''NOT HIRED'')"
    unfolding parseResponseText_def by (simp add: sample_texts_parse)
  have p2: "parseResponseText parseSample fencedPayloadText
              = Some (samplePayload 1250 ''Adequate'' ''NOT HIRED'')"
    unfolding parseResponseText_def by (simp add: sample_texts_parse)
  show "scoreMessage parseSample [TextBlock samplePayloadText]
     = ResultsJson (sampleResults 1250 ''Adequate'' ''NOT HIRED'')"
    unfolding scoreMessage_def by (simp add: Let_def ne p1 sample_payload_1250)
  show "scoreMessage parseSample [TextBlock fencedPayloadText]
     = ResultsJson (sampleResults 1250 ''Adequate'' ''NOT HIRED'')"
    unfolding scoreMessage_def by (simp add: Let_def ne p2 sample_payload_1250)
  show "firstBalancedObject_spec remarkedPayloadText = Some samplePayloadText"
    by code_simp
  show "jsonMatch remarkedPayloadText
     = Some (samplePayloadText @ newline @ ''Scores use the {1-10}'')"
    by (rule sample_texts_parse)
  show p3: "parseResponseText parseSample remarkedPayloadText = None"
    unfolding parseResponseText_def by (simp add: sample_texts_parse)
  show "scoreMessage parseSample [TextBlock remarkedPayloadText]
     = ErrorJson 500 ''Failed to score the interview''"
    unfolding scoreMessage_def by (simp add: Let_def p3)
qed

lemma longText_length: "length (longText n) = n"
  by (simp only: longText_def length_replicate)

lemma longText_trim: "0 < n \<Longrightarrow> trim (longText n) \<noteq> []"
  unfolding trim_empty_iff longText_def using x_not_white by (simp only: set_replicate_conv_if) simp

text \<open>
  C8. Steps 2 to 9 of the handler, the orchestrator that a request reaches once the rate
  limiter has admitted it, answer a request whose transcript is a string of more than
  200,000 characters, or whose CV text is a string of more than 100,000 characters, with
  a 400 response and without calling the scoring collaborator; the whole handler makes
  no call for such a request either. A request with a non-blank transcript of at most
  200,000 characters, a CV text that is absent, null or of at most 100,000 characters,
  and a configured key passes these checks: the collaborator is called once, and the
  response is not a 400.
\<close>

theorem oversize_rejected_locally:
  "(body req = Some b
      \<and> ((\<exists>t. asString (getProp b ''transcript'') = Some t \<and> length t > 200000)
         \<or> (\<exists>c. asString (getProp b ''cvText'') = Some c \<and> length c > 100000))
    \<longrightarrow> (\<exists>msg. fst (handleAdmitted env req) = ErrorJson 400 msg)
        \<and> snd (handleAdmitted env req) = []
        \<and> fst (snd (POST env st req)) = [])
   \<and> (body req = Some b
      \<and> asString (getProp b ''transcript'') = Some t \<and> trim t \<noteq> [] \<and> length t \<le> 200000
      \<and> (getProp b ''cvText'' = None \<or> getProp b ''cvText'' = Some JNull
          \<or> (\<exists>c. getProp b ''cvText'' = Some (JStr c) \<and> length c \<le> 100000))
      \<and> (\<exists>key. env_apiKey env = Some key \<and> key \<noteq> [])
    \<longrightarrow> snd (handleAdmitted env req) = [userContent (getProp b ''cvText'') t]
        \<and> (\<forall>msg. fst (handleAdmitted env req) \<noteq> ErrorJson 400 msg))"
proof (intro conjI impI)
  assume a: "body req = Some b
      \<and> ((\<exists>t. asString (getProp b ''transcript'') = Some t \<and> length t > 200000)
         \<or> (\<exists>c. asString (getProp b ''cvText'') = Some c \<and> length c > 100000))"
  then have nn: "b \<noteq> JNull" by auto
  have both: "(\<exists>msg. fst (handleAdmitted env req) = ErrorJson 400 msg)
        \<and> snd (handleAdmitted env req) = []"
    using a nn unfolding handleAdmitted_def MAX_TRANSCRIPT_LENGTH_def MAX_CV_TEXT_LENGTH_def
    by (auto split: option.splits)
  then show "\<exists>msg. fst (handleAdmitted env req) = ErrorJson 400 msg"
    and h: "snd (handleAdmitted env req) = []" by simp_all
  show "fst (snd (POST env st req)) = []"
    unfolding POST_def using h by (simp add: split_beta Let_def)
next
  assume a: "body req = Some b
      \<and> asString (getProp b ''transcript'') = Some t \<and> trim t \<noteq> [] \<and> length t \<le> 200000
      \<and> (getProp b ''cvText'' = None \<or> getProp b ''cvText'' = Some JNull
          \<or> (\<exists>c. getProp b ''cvText'' = Some (JStr c) \<and> length c \<le> 100000))
      \<and> (\<exists>key. env_apiKey env = Some key \<and> key \<noteq> [])"
  then have nn: "b \<noteq> JNull" by auto
  have sm: "\<And>bs msg. scoreMessage (env_parse env) bs \<noteq> ErrorJson 400 msg"
    unfolding scoreMessage_def by (simp add: Let_def split: option.splits sum.splits)
  show "snd (handleAdmitted env req) = [userContent (getProp b ''cvText'') t]"
    using a nn unfolding handleAdmitted_def MAX_TRANSCRIPT_LENGTH_def MAX_CV_TEXT_LENGTH_def
    by (auto simp: Let_def split: option.splits CollaboratorReply.splits)
  show "\<forall>msg. fst (handleAdmitted env req) \<noteq> ErrorJson 400 msg"
    using a nn sm unfolding handleAdmitted_def MAX_TRANSCRIPT_LENGTH_def MAX_CV_TEXT_LENGTH_def
    by (auto simp: Let_def somethingWentWrong_def split: option.splits CollaboratorReply.splits)
qed

theorem oversize_rejected_locally_witness:
  "snd (handleAdmitted sampleEnvironment (sampleRequest (longText 200001) (longText 100000))) = []
   \<and> fst (snd (POST sampleEnvironment freshLimiter
                 (sampleRequest (longText 200001) (longText 100000)))) = []
   \<and> snd (handleAdmitted sampleEnvironment (sampleRequest (longText 200000) (longText 100000)))
       = [userContent (Some (JStr (longText 100000))) (longText 200000)]"
proof -
  let ?b1 = "JObj [(''transcript'', JStr (longText 200001)), (''cvText'', JStr (longText 100000))]"
  let ?b2 = "JObj [(''transcript'', JStr (longText 200000)), (''cvText'', JStr (longText 100000))]"
  have g1: "asString (getProp ?b1 ''transcript'') = Some (longText 200001)"
    and g2: "asString (getProp ?b2 ''transcript'') = Some (longText 200000)"
    and g3: "getProp ?b2 ''cvText'' = Some (JStr (longText 100000))"
    by simp_all
  have h1: "body (sampleRequest (longText 200001) (longText 100000)) = Some ?b1
      \<and> ((\<exists>t. asString (getProp ?b1 ''transcript'') = Some t \<and> length t > 200000)
         \<or> (\<exists>c. asString (getProp ?b1 ''cvText'') = Some c \<and> length c > 100000))"
    unfolding g1 by (simp add: sampleRequest_def longText_length)
  have h2: "body (sampleRequest (longText 200000) (longText 100000)) = Some ?b2
      \<and> asString (getProp ?b2 ''transcript'') = Some (longText 200000)
      \<and> trim (longText 200000) \<noteq> [] \<and> length (longText 200000) \<le> 200000
      \<and> (getProp ?b2 ''cvText'' = None \<or> getProp ?b2 ''cvText'' = Some JNull
          \<or> (\<exists>c. getProp ?b2 ''cvText'' = Some (JStr c) \<and> length c \<le> 100000))
      \<and> (\<exists>key. env_apiKey sampleEnvironment = Some key \<and> key \<noteq> [])"
    unfolding g2 g3 by (simp add: sampleRequest_def longText_length longText_trim sampleEnvironment_def)
  note t1 = oversize_rejected_locally[of "sampleRequest (longText 200001) (longText 100000)" ?b1
      sampleEnvironment freshLimiter, THEN conjunct1, THEN mp, OF h1]
  note t2 = oversize_rejected_locally[of "sampleRequest (longText 200000) (longText 100000)" ?b2
      sampleEnvironment freshLimiter "longText 200000", THEN conjunct2, THEN mp, OF h2,
      THEN conjunct1]
  from t1[THEN conjunct2, THEN conjunct1] t1[THEN conjunct2, THEN conjunct2] t2[unfolded g3]
  show ?thesis by (intro conjI)
qed

end
